theory Spec2Isabelle
  imports Complex_Main "HOL-Library.Word" "HOL-Library.Sublist"
begin

section \<open>Runtime values: strings and numbers\<close>

text \<open>
  A JavaScript string is a sequence of UTF-16 code units; \<open>length\<close>, \<open>substring\<close>,
  \<open>includes\<close> and \<open>replace\<close> all count and compare code units. \<open>ascii\<close> writes the
  code units of an ASCII literal.
\<close>

type_synonym jschar = "16 word"
type_synonym jsstring = "jschar list"

definition ascii :: "string \<Rightarrow> jsstring" where
  "ascii s = map (\<lambda>c. of_nat (of_char c)) s"

text \<open>
  A JavaScript \<open>number\<close>: a finite value, an infinity or NaN. The code under study only
  compares numbers and reads the sign of a difference of two of them; rounding changes
  neither (a difference of two finite doubles is zero only when they are equal, and it
  keeps its sign), so the finite values are taken as reals.
\<close>

datatype number = NaN | NegInf | Fin real | PosInf

text \<open>\<open>x < y\<close> on numbers that are not NaN; with a NaN operand the comparison is undefined.\<close>

fun num_less :: "number \<Rightarrow> number \<Rightarrow> bool" where
  "num_less NaN y = False"
| "num_less x NaN = False"
| "num_less NegInf NegInf = False"
| "num_less NegInf y = True"
| "num_less (Fin x) NegInf = False"
| "num_less (Fin x) (Fin y) = (x < y)"
| "num_less (Fin x) PosInf = True"
| "num_less PosInf y = False"

text \<open>\<open>a >= b\<close>: false when either operand is NaN, otherwise \<open>not (a < b)\<close>.\<close>

definition js_ge :: "number \<Rightarrow> number \<Rightarrow> bool" where
  "js_ge a b = (a \<noteq> NaN \<and> b \<noteq> NaN \<and> \<not> num_less a b)"

text \<open>\<open>a - b\<close>.\<close>

fun js_sub :: "number \<Rightarrow> number \<Rightarrow> number" where
  "js_sub NaN y = NaN"
| "js_sub x NaN = NaN"
| "js_sub PosInf PosInf = NaN"
| "js_sub NegInf NegInf = NaN"
| "js_sub PosInf y = PosInf"
| "js_sub NegInf y = NegInf"
| "js_sub (Fin x) PosInf = NegInf"
| "js_sub (Fin x) NegInf = PosInf"
| "js_sub (Fin x) (Fin y) = Fin (x - y)"

subsection \<open>Array.prototype.sort and Array.prototype.slice\<close>

text \<open>
  \<open>arr.sort(cmp)\<close> is stable, and places \<open>a\<close> after \<open>b\<close> only when \<open>cmp(a, b) > 0\<close>; a
  comparator result of NaN counts as \<open>+0\<close>. For a consistent comparator the language
  fixes the result (the stable sort), computed here by insertion from the right.
\<close>

fun js_insort :: "('a \<Rightarrow> 'a \<Rightarrow> number) \<Rightarrow> 'a \<Rightarrow> 'a list \<Rightarrow> 'a list" where
  "js_insort cmp x [] = [x]"
| "js_insort cmp x (y # ys) =
     (if num_less (Fin 0) (cmp x y) then y # js_insort cmp x ys else x # y # ys)"

definition js_sort :: "('a \<Rightarrow> 'a \<Rightarrow> number) \<Rightarrow> 'a list \<Rightarrow> 'a list" where
  "js_sort cmp xs = foldr (js_insort cmp) xs []"

text \<open>
  \<open>arr.slice(0, end)\<close>: \<open>end\<close> is truncated to an integer (NaN is 0); a negative \<open>end\<close>
  counts from the end of the array.
\<close>

definition js_slice0 :: "'a list \<Rightarrow> number \<Rightarrow> 'a list" where
  "js_slice0 xs e =
     (case e of
        NaN \<Rightarrow> []
      | NegInf \<Rightarrow> []
      | PosInf \<Rightarrow> xs
      | Fin r \<Rightarrow>
          (let len = int (length xs);
               relativeEnd = (if r < 0 then \<lceil>r\<rceil> else \<lfloor>r\<rfloor>);
               final = (if relativeEnd < 0 then max (len + relativeEnd) 0
                        else min relativeEnd len)
           in take (nat (max final 0)) xs))"

subsection \<open>String.prototype.includes, replace and match\<close>

text \<open>
  \<open>split_first pat s\<close> finds the first occurrence of \<open>pat\<close> in \<open>s\<close> and returns what stands
  before and after it.
\<close>

fun split_first :: "jsstring \<Rightarrow> jsstring \<Rightarrow> (jsstring \<times> jsstring) option" where
  "split_first pat [] = (if pat = [] then Some ([], []) else None)"
| "split_first pat (c # cs) =
     (if prefix pat (c # cs) then Some ([], drop (length pat) (c # cs))
      else (case split_first pat cs of
              None \<Rightarrow> None
            | Some (pre, post) \<Rightarrow> Some (c # pre, post)))"

definition js_includes :: "jsstring \<Rightarrow> jsstring \<Rightarrow> bool" where
  "js_includes s pat = (split_first pat s \<noteq> None)"

definition is_digit :: "jschar \<Rightarrow> bool" where
  "is_digit c = (0x30 \<le> c \<and> c \<le> 0x39)"

definition digit_val :: "jschar \<Rightarrow> nat" where
  "digit_val c = unat c - 48"

text \<open>
  The replacement text of \<open>replace\<close> is a template (ECMAScript's GetSubstitution):
  \<open>$$\<close> stands for \<open>$\<close>, \<open>$&\<close> for the matched text, \<open>$`\<close> and \<open>$'\<close> for the text before
  and after the match, \<open>$n\<close> and \<open>$nn\<close> for a capture group when the pattern has that
  many; every other character, and a \<open>$\<close> followed by anything else, stands for itself.
\<close>

fun GetSubstitution ::
  "jsstring \<Rightarrow> jsstring \<Rightarrow> jsstring \<Rightarrow> jsstring list \<Rightarrow> jsstring \<Rightarrow> jsstring" where
  "GetSubstitution matched pre post caps [] = []"
| "GetSubstitution matched pre post caps [c] = [c]"
| "GetSubstitution matched pre post caps (c # d # t) =
     (if c \<noteq> 0x24 then c # GetSubstitution matched pre post caps (d # t)
      else if d = 0x24 then 0x24 # GetSubstitution matched pre post caps t
      else if d = 0x26 then matched @ GetSubstitution matched pre post caps t
      else if d = 0x60 then pre @ GetSubstitution matched pre post caps t
      else if d = 0x27 then post @ GetSubstitution matched pre post caps t
      else if is_digit d then
        (case t of
           e # t' \<Rightarrow>
             if is_digit e \<and> 10 * digit_val d + digit_val e \<le> length caps then
               (if 1 \<le> 10 * digit_val d + digit_val e
                then caps ! (10 * digit_val d + digit_val e - 1)
                       @ GetSubstitution matched pre post caps t'
                else c # d # e # GetSubstitution matched pre post caps t')
             else if 1 \<le> digit_val d \<and> digit_val d \<le> length caps
             then caps ! (digit_val d - 1) @ GetSubstitution matched pre post caps t
             else c # d # GetSubstitution matched pre post caps t
         | [] \<Rightarrow>
             if 1 \<le> digit_val d \<and> digit_val d \<le> length caps
             then caps ! (digit_val d - 1)
             else [c, d])
      else c # GetSubstitution matched pre post caps (d # t))"

text \<open>\<open>s.replace(pat, repl)\<close> with a string pattern: the first occurrence only, no captures.\<close>

definition js_replace :: "jsstring \<Rightarrow> jsstring \<Rightarrow> jsstring \<Rightarrow> jsstring" where
  "js_replace s pat repl =
     (case split_first pat s of
        None \<Rightarrow> s
      | Some (pre, post) \<Rightarrow> pre @ GetSubstitution pat pre post [] repl @ post)"

text \<open>
  \<open>text.match(/\{[\s\S]*\}/)\<close>: the leftmost match starts at the first \<open>{\<close>, and the
  greedy star runs to the last \<open>}\<close> of the text; there is no match when no \<open>}\<close> follows
  the first \<open>{\<close>.
\<close>

definition jsonMatch :: "jsstring \<Rightarrow> jsstring option" where
  "jsonMatch text =
     (case dropWhile (\<lambda>c. c \<noteq> 0x7B) text of
        [] \<Rightarrow> None
      | c # rest \<Rightarrow>
          if 0x7D \<in> set rest
          then Some (c # rev (dropWhile (\<lambda>d. d \<noteq> 0x7D) (rev rest)))
          else None)"

text \<open>\<open>s.trim()\<close> strips white space and line terminators from both ends.\<close>

definition is_white :: "jschar \<Rightarrow> bool" where
  "is_white c =
     (c \<in> set [0x09, 0x0A, 0x0B, 0x0C, 0x0D, 0x20, 0xA0, 0x1680, 0x2028, 0x2029,
                0x202F, 0x205F, 0x3000, 0xFEFF]
      \<or> (0x2000 \<le> c \<and> c \<le> 0x200A))"

definition js_trim :: "jsstring \<Rightarrow> jsstring" where
  "js_trim s = rev (dropWhile is_white (rev (dropWhile is_white s)))"

subsection \<open>JSON values\<close>

datatype json =
    JNull
  | JBool bool
  | JNumber number
  | JString jsstring
  | JArray "json list"
  | JObject "(jsstring \<times> json) list"

fun join_with :: "jsstring \<Rightarrow> jsstring list \<Rightarrow> jsstring" where
  "join_with sep [] = []"
| "join_with sep [x] = x"
| "join_with sep (x # y # ys) = x @ sep @ join_with sep (y # ys)"

text \<open>
  A \<open>JObject\<close> lists the own properties of a parsed object, each key once.

  ToString of a parsed value, \<open>None\<close> where it throws a TypeError; \<open>nts\<close> is the runtime's
  Number-to-string. An array prints as its elements joined with commas, \<open>null\<close> elements
  printing as the empty string. An object prints through the inherited \<open>toString\<close> as
  \<open>[object Object]\<close>, unless it has an own property \<open>toString\<close>: a parsed value is never
  callable, the inherited \<open>valueOf\<close> returns the object itself, and the conversion throws.
\<close>

fun ToString :: "(number \<Rightarrow> jsstring) \<Rightarrow> json \<Rightarrow> jsstring option" where
  "ToString nts JNull = Some (ascii ''null'')"
| "ToString nts (JBool b) = Some (if b then ascii ''true'' else ascii ''false'')"
| "ToString nts (JNumber n) = Some (nts n)"
| "ToString nts (JString s) = Some s"
| "ToString nts (JArray xs) =
     map_option (join_with [0x2C])
       (those (map (\<lambda>x. if x = JNull then Some [] else ToString nts x) xs))"
| "ToString nts (JObject kvs) =
     (if ascii ''toString'' \<in> fst ` set kvs then None else Some (ascii ''[object Object]''))"

text \<open>\<open>arr.join(sep)\<close>, \<open>None\<close> where the conversion of an element throws.\<close>

definition js_join ::
  "(number \<Rightarrow> jsstring) \<Rightarrow> jsstring \<Rightarrow> json list \<Rightarrow> jsstring option" where
  "js_join nts sep xs =
     map_option (join_with sep)
       (those (map (\<lambda>x. if x = JNull then Some [] else ToString nts x) xs))"

section \<open>Data model of the plugin\<close>

record TFile =
  path :: jsstring
  basename :: jsstring

record DocumentRelation =
  sourceFile :: TFile
  targetFile :: TFile
  similarityScore :: number
  extractedContext :: jsstring

record GeminiLogEntry =
  timestamp :: jsstring
  model :: jsstring
  inputPrompt :: jsstring
  outputResponse :: "jsstring option"
  inputTokens :: "number option"
  outputTokens :: "number option"
  error :: "jsstring option"

record KnowledgeGraphSettings =
  enabled :: bool
  minSimilarityScore :: number
  maxLinksPerDocument :: number
  autoAddLinks :: bool

text \<open>The six prompt templates; a field is named after the template with \<open>T\<close> appended.\<close>

record PromptTemplates =
  generateTitleT :: jsstring
  summarizeTextT :: jsstring
  expandTextT :: jsstring
  generateHashtagsT :: jsstring
  extractCoreConceptsT :: jsstring
  analyzeDocumentRelationT :: jsstring

text \<open>
  The settings, without \<open>defaultNewFileLocation\<close> and \<open>customPrompts\<close>, which none of the
  functions below reads.
\<close>

record GeminiCopilotSettings =
  geminiApiKey :: jsstring
  geminiModel :: jsstring
  logHistory :: "GeminiLogEntry list"
  knowledgeGraphSettings :: KnowledgeGraphSettings
  promptTemplates :: PromptTemplates

text \<open>
  The plugin object: its settings and the API client \<open>genAI\<close> (\<open>None\<close> is \<open>null\<close>; the
  client holds the key it was built from). \<open>sent\<close> counts the requests sent to the
  generation service so far; it belongs to the outside world and only numbers the
  service's answers.
\<close>

record plugin =
  settings :: GeminiCopilotSettings
  genAI :: "jsstring option"
  sent :: nat

text \<open>
  What the service does with a request: it completes with a text, or the call throws;
  \<open>Thrown m\<close> carries the \<open>message\<close> property of the thrown value (\<open>None\<close> when it has
  none).
\<close>

datatype api_result = Completion jsstring | Thrown "jsstring option"

text \<open>
  The surroundings of the plugin that its code calls: the generation service (answering
  the n-th request for a model and a prompt), the clock read at the n-th request, and
  three built-ins of the runtime. \<open>JSON_parse\<close> returns \<open>None\<close> where \<open>JSON.parse\<close> throws.
  \<open>JSON_parse_relation\<close> is the same built-in at the result type that
  \<open>analyzeDocumentRelation\<close> declares, \<open>{ similarityScore: number, context: string }\<close>.
\<close>

record AnalysisResult =
  analysisScore :: number
  analysisContext :: jsstring

record env =
  api :: "nat \<Rightarrow> jsstring \<Rightarrow> jsstring \<Rightarrow> api_result"
  clock :: "nat \<Rightarrow> jsstring"
  JSON_parse :: "jsstring \<Rightarrow> json option"
  JSON_parse_relation :: "jsstring \<Rightarrow> AnalysisResult option"
  Number_toString :: "number \<Rightarrow> jsstring"

text \<open>
  The vault: the markdown files in enumeration order, the body of each file by path
  (\<open>None\<close> where \<open>vault.read\<close> rejects), and whether \<open>vault.modify\<close> succeeds on a path.
\<close>

record vault =
  markdownFiles :: "TFile list"
  contents :: "jsstring \<Rightarrow> jsstring option"
  canModify :: "jsstring \<Rightarrow> bool"

definition vault_modify :: "vault \<Rightarrow> TFile \<Rightarrow> jsstring \<Rightarrow> vault option" where
  "vault_modify v f body =
     (if canModify v (path f) then Some (v\<lparr>contents := (contents v)(path f \<mapsto> body)\<rparr>)
      else None)"

section \<open>The generation client\<close>

definition initializeGeminiAPI :: "plugin \<Rightarrow> plugin" where
  "initializeGeminiAPI st =
     (if geminiApiKey (settings st) \<noteq> [] then st\<lparr>genAI := Some (geminiApiKey (settings st))\<rparr>
      else st\<lparr>genAI := None\<rparr>)"

text \<open>
  \<open>logGeminiInteraction\<close> pushes the entry onto \<open>settings.logHistory\<close>. The call of
  \<open>saveSettings\<close> that follows is not awaited; it persists the settings and later rebuilds
  the client from the same key, which is not modelled.
\<close>

definition logGeminiInteraction :: "plugin \<Rightarrow> GeminiLogEntry \<Rightarrow> plugin" where
  "logGeminiInteraction st logEntry =
     st\<lparr>settings := (settings st)\<lparr>logHistory := logHistory (settings st) @ [logEntry]\<rparr>\<rparr>"

text \<open>
  \<open>generateContent\<close> returns the \<open>text\<close> of its result (\<open>None\<close> is \<open>null\<close>) and the new state.
  The notices it shows and what it prints to the console are left out.
\<close>

definition generateContent :: "env \<Rightarrow> plugin \<Rightarrow> jsstring \<Rightarrow> jsstring option \<times> plugin" where
  "generateContent e st prompt =
     (case genAI st of
        None \<Rightarrow> (None, st)
      | Some client \<Rightarrow>
          (let logEntry = \<lparr>timestamp = clock e (sent st),
                           model = geminiModel (settings st),
                           inputPrompt = prompt,
                           outputResponse = None,
                           inputTokens = None,
                           outputTokens = None,
                           error = None\<rparr>;
               st1 = st\<lparr>sent := Suc (sent st)\<rparr>
           in (case api e (sent st) (geminiModel (settings st)) prompt of
                 Completion responseText \<Rightarrow>
                   (Some responseText,
                    logGeminiInteraction st1 (logEntry\<lparr>outputResponse := Some responseText\<rparr>))
               | Thrown message \<Rightarrow>
                   (None, logGeminiInteraction st1 (logEntry\<lparr>error := message\<rparr>)))))"

section \<open>sanitizeFilename\<close>

text \<open>
  \<open>filename.replace(/[*"\\\/<>:\|?]/g, '_')\<close>: the pattern is a class of nine characters
  and has the global flag, so the scan visits every code unit once; the replacement
  \<open>'_'\<close> holds no \<open>$\<close>.
\<close>

definition invalidChars :: "jschar list" where
  "invalidChars = [0x2A, 0x22, 0x5C, 0x2F, 0x3C, 0x3E, 0x3A, 0x7C, 0x3F]"

fun sanitizeFilename :: "jsstring \<Rightarrow> jsstring" where
  "sanitizeFilename [] = []"
| "sanitizeFilename (c # cs) =
     (if c \<in> set invalidChars then 0x5F # sanitizeFilename cs else c # sanitizeFilename cs)"

section \<open>Prompt builders\<close>

definition placeholder :: "string \<Rightarrow> jsstring" where
  "placeholder name = ascii ''{{'' @ ascii name @ ascii ''}}''"

definition generateNoteTitle ::
  "env \<Rightarrow> plugin \<Rightarrow> jsstring \<Rightarrow> jsstring option \<Rightarrow> jsstring option \<times> plugin" where
  "generateNoteTitle e st content currentTitle =
     (let prompt = generateTitleT (promptTemplates (settings st));
          prompt = js_replace prompt (placeholder ''content'') content;
          prompt = js_replace prompt (placeholder ''currentTitle'')
                     (case currentTitle of
                        None \<Rightarrow> []
                      | Some t \<Rightarrow> if t = [] then [] else ascii '' using current title: '' @ t)
      in generateContent e st prompt)"

definition summarizeText :: "env \<Rightarrow> plugin \<Rightarrow> jsstring \<Rightarrow> jsstring option \<times> plugin" where
  "summarizeText e st text =
     (let prompt = summarizeTextT (promptTemplates (settings st));
          prompt = js_replace prompt (placeholder ''content'') text
      in generateContent e st prompt)"

section \<open>Concept extraction and relation analysis\<close>

text \<open>
  \<open>conceptsData.concepts.join(', ')\<close>: only an object whose \<open>concepts\<close> property is an array
  has a \<open>join\<close> to call, and the join gives a string unless the conversion of an element
  throws; everything else throws a TypeError (\<open>None\<close>).
\<close>

definition concepts_joined :: "env \<Rightarrow> json \<Rightarrow> jsstring option" where
  "concepts_joined e conceptsData =
     (case conceptsData of
        JObject kvs \<Rightarrow>
          (case map_of kvs (ascii ''concepts'') of
             Some (JArray xs) \<Rightarrow> js_join (Number_toString e) (ascii '', '') xs
           | _ \<Rightarrow> None)
      | _ \<Rightarrow> None)"

definition truncation_mark :: jsstring where
  "truncation_mark = ascii ''...('' @ [0xC774, 0xD558, 0x20, 0xC0DD, 0xB7B5] @ ascii '')''"

definition extractCoreConcepts ::
  "env \<Rightarrow> plugin \<Rightarrow> jsstring \<Rightarrow> jsstring option \<times> plugin" where
  "extractCoreConcepts e st content =
     (let prompt = extractCoreConceptsT (promptTemplates (settings st));
          prompt = js_replace prompt (placeholder ''content'')
                     (take 2000 content @ (if length content > 2000 then truncation_mark else []));
          (response, st') = generateContent e st prompt
      in (case response of
            None \<Rightarrow> (None, st')
          | Some text \<Rightarrow>
              if text = [] then (None, st')
              else (case jsonMatch text of
                      None \<Rightarrow> (Some text, st')
                    | Some m \<Rightarrow>
                        (case JSON_parse e m of
                           None \<Rightarrow> (Some text, st')
                         | Some conceptsData \<Rightarrow>
                             (case concepts_joined e conceptsData of
                                None \<Rightarrow> (Some text, st')
                              | Some joined \<Rightarrow> (Some joined, st'))))))"

definition analyzeDocumentRelation ::
  "env \<Rightarrow> plugin \<Rightarrow> jsstring \<Rightarrow> jsstring \<Rightarrow> jsstring \<Rightarrow> jsstring
     \<Rightarrow> AnalysisResult option \<times> plugin" where
  "analyzeDocumentRelation e st sourceTitle sourceConcepts targetTitle targetConcepts =
     (let prompt = analyzeDocumentRelationT (promptTemplates (settings st));
          prompt = js_replace prompt (placeholder ''sourceTitle'') sourceTitle;
          prompt = js_replace prompt (placeholder ''sourceConcepts'') sourceConcepts;
          prompt = js_replace prompt (placeholder ''targetTitle'') targetTitle;
          prompt = js_replace prompt (placeholder ''targetConcepts'') targetConcepts;
          (response, st') = generateContent e st prompt
      in (case response of
            None \<Rightarrow> (None, st')
          | Some text \<Rightarrow>
              if text = [] then (None, st')
              else (case jsonMatch text of
                      None \<Rightarrow> (None, st')
                    | Some m \<Rightarrow> (JSON_parse_relation e m, st'))))"

section \<open>Finding related documents\<close>

text \<open>The comparator of both sorts: \<open>(a, b) => b.similarityScore - a.similarityScore\<close>.\<close>

definition byScoreDesc :: "DocumentRelation \<Rightarrow> DocumentRelation \<Rightarrow> number" where
  "byScoreDesc a b = js_sub (similarityScore b) (similarityScore a)"

text \<open>
  The loop of \<open>findRelatedDocuments\<close> over the other files, with the relations pushed so
  far. A read that throws, an empty body and failed concepts all skip the candidate.
\<close>

fun compareFiles ::
  "env \<Rightarrow> vault \<Rightarrow> TFile \<Rightarrow> jsstring \<Rightarrow> TFile list \<Rightarrow> DocumentRelation list \<Rightarrow> plugin
     \<Rightarrow> DocumentRelation list \<times> plugin" where
  "compareFiles e v source sourceConcepts [] relations st = (relations, st)"
| "compareFiles e v source sourceConcepts (target # rest) relations st =
     (case contents v (path target) of
        None \<Rightarrow> compareFiles e v source sourceConcepts rest relations st
      | Some targetContent \<Rightarrow>
          if js_trim targetContent = []
          then compareFiles e v source sourceConcepts rest relations st
          else
            (case extractCoreConcepts e st targetContent of
               (None, st1) \<Rightarrow> compareFiles e v source sourceConcepts rest relations st1
             | (Some targetConcepts, st1) \<Rightarrow>
                 if targetConcepts = []
                 then compareFiles e v source sourceConcepts rest relations st1
                 else
                   (case analyzeDocumentRelation e st1 (basename source) sourceConcepts
                           (basename target) targetConcepts of
                      (None, st2) \<Rightarrow> compareFiles e v source sourceConcepts rest relations st2
                    | (Some analysisResult, st2) \<Rightarrow>
                        if js_ge (analysisScore analysisResult)
                             (minSimilarityScore (knowledgeGraphSettings (settings st2)))
                        then compareFiles e v source sourceConcepts rest
                               (relations @
                                  [\<lparr>sourceFile = source,
                                    targetFile = target,
                                    similarityScore = analysisScore analysisResult,
                                    extractedContext = analysisContext analysisResult\<rparr>])
                               st2
                        else compareFiles e v source sourceConcepts rest relations st2)))"

text \<open>
  \<open>foundRelations\<close> is the array \<open>relations\<close> as it stands after the loop, before it is
  sorted and cut; \<open>findRelatedDocuments\<close> is the function as a whole.
\<close>

definition foundRelations ::
  "env \<Rightarrow> vault \<Rightarrow> plugin \<Rightarrow> TFile \<Rightarrow> jsstring \<Rightarrow> DocumentRelation list \<times> plugin" where
  "foundRelations e v st source sourceContent =
     (let otherFiles = filter (\<lambda>file. path file \<noteq> path source) (markdownFiles v)
      in (case extractCoreConcepts e st sourceContent of
            (None, st1) \<Rightarrow> ([], st1)
          | (Some sourceConcepts, st1) \<Rightarrow>
              if sourceConcepts = [] then ([], st1)
              else compareFiles e v source sourceConcepts otherFiles [] st1))"

definition findRelatedDocuments ::
  "env \<Rightarrow> vault \<Rightarrow> plugin \<Rightarrow> TFile \<Rightarrow> jsstring \<Rightarrow> DocumentRelation list \<times> plugin" where
  "findRelatedDocuments e v st source sourceContent =
     (case foundRelations e v st source sourceContent of
        (relations, st') \<Rightarrow>
          (js_slice0 (js_sort byScoreDesc relations)
             (maxLinksPerDocument (knowledgeGraphSettings (settings st'))),
           st'))"

section \<open>Writing links into documents\<close>

text \<open>The section heading \<open>'## \<dots>'\<close> of the related documents, eight code units.\<close>

definition related_marker :: jsstring where
  "related_marker = ascii ''## '' @ [0xAD00, 0xB828, 0x20, 0xBB38, 0xC11C]"

definition linkText :: "DocumentRelation \<Rightarrow> jsstring" where
  "linkText rel =
     ascii ''- [['' @ basename (targetFile rel) @ ascii '']] - '' @ extractedContext rel @ [0x0A]"

definition relatedLinksSection :: "DocumentRelation list \<Rightarrow> jsstring" where
  "relatedLinksSection relatedFiles =
     [0x0A, 0x0A] @ related_marker @ [0x0A] @ concat (map linkText relatedFiles)"

text \<open>The relations grouped for the source of \<open>relation\<close>: filtered, sorted again and cut.\<close>

definition relatedFilesOf ::
  "plugin \<Rightarrow> DocumentRelation list \<Rightarrow> DocumentRelation \<Rightarrow> DocumentRelation list" where
  "relatedFilesOf st relations relation =
     js_slice0
       (js_sort byScoreDesc
          (filter (\<lambda>r. path (sourceFile r) = path (sourceFile relation)) relations))
       (maxLinksPerDocument (knowledgeGraphSettings (settings st)))"

text \<open>
  The loop of \<open>addWikiLinksToDocuments\<close>: \<open>relations\<close> is the whole argument, the list
  recursed on is what is left of it, and the state is the vault with the set
  \<open>processedFiles\<close>. A read or a write that throws leaves the iteration.
\<close>

fun addLinksLoop ::
  "plugin \<Rightarrow> DocumentRelation list \<Rightarrow> DocumentRelation list \<Rightarrow> vault \<Rightarrow> jsstring set
     \<Rightarrow> vault \<times> jsstring set" where
  "addLinksLoop st relations [] v processedFiles = (v, processedFiles)"
| "addLinksLoop st relations (relation # rest) v processedFiles =
     (if path (sourceFile relation) \<in> processedFiles
      then addLinksLoop st relations rest v processedFiles
      else
        (case contents v (path (sourceFile relation)) of
           None \<Rightarrow> addLinksLoop st relations rest v processedFiles
         | Some content \<Rightarrow>
             (let relatedFiles = relatedFilesOf st relations relation
              in if relatedFiles = [] then addLinksLoop st relations rest v processedFiles
                 else if js_includes content related_marker
                 then addLinksLoop st relations rest v processedFiles
                 else
                   (case vault_modify v (sourceFile relation)
                           (content @ relatedLinksSection relatedFiles) of
                      None \<Rightarrow> addLinksLoop st relations rest v processedFiles
                    | Some v' \<Rightarrow>
                        addLinksLoop st relations rest v'
                          (insert (path (sourceFile relation)) processedFiles)))))"

definition addWikiLinksToDocuments ::
  "plugin \<Rightarrow> vault \<Rightarrow> DocumentRelation list \<Rightarrow> vault \<times> jsstring set" where
  "addWikiLinksToDocuments st v relations = addLinksLoop st relations relations v {}"

subsection \<open>The single link of the modal\<close>

text \<open>
  The group of \<open>/## \<dots>\n([\s\S]*?)(?=\n##|$)/\<close>: the shortest text after which \<open>\n##\<close> or the
  end of the input follows.
\<close>

fun section_body :: "jsstring \<Rightarrow> jsstring" where
  "section_body [] = []"
| "section_body (c # cs) =
     (if prefix [0x0A, 0x23, 0x23] (c # cs) then [] else c # section_body cs)"

text \<open>
  \<open>content.match(sectionRegex)\<close>: the text before the match, the group and the text after
  the match; the match itself is the heading, a newline and the group. The match starts
  at the first heading that a newline follows.
\<close>

definition sectionMatch :: "jsstring \<Rightarrow> (jsstring \<times> jsstring \<times> jsstring) option" where
  "sectionMatch content =
     (case split_first (related_marker @ [0x0A]) content of
        None \<Rightarrow> None
      | Some (pre, rest) \<Rightarrow>
          Some (pre, section_body rest, drop (length (section_body rest)) rest))"

text \<open>
  \<open>addWikiLink\<close> of the modal, on the active file (\<open>None\<close> when no file is open). A read
  or a write that throws is caught, and the vault stays as it is.
\<close>

definition addWikiLink :: "vault \<Rightarrow> TFile option \<Rightarrow> DocumentRelation \<Rightarrow> vault" where
  "addWikiLink v activeFile relation =
     (case activeFile of
        None \<Rightarrow> v
      | Some currentFile \<Rightarrow>
          (case contents v (path currentFile) of
             None \<Rightarrow> v
           | Some content \<Rightarrow>
               (let wikiLink = ascii ''[['' @ basename (targetFile relation) @ ascii '']]'';
                    linkWithContext =
                      ascii ''- '' @ wikiLink @ ascii '' - '' @ extractedContext relation
                in if js_includes content related_marker
                   then
                     (case sectionMatch content of
                        None \<Rightarrow> v
                      | Some (pre, body, post) \<Rightarrow>
                          if js_includes body wikiLink then v
                          else
                            (let matched = related_marker @ [0x0A] @ body;
                                 updatedSection = matched @ [0x0A] @ linkWithContext;
                                 newContent =
                                   pre @ GetSubstitution matched pre post [body] updatedSection
                                     @ post
                             in (case vault_modify v currentFile newContent of
                                   None \<Rightarrow> v
                                 | Some v' \<Rightarrow> v')))
                   else
                     (case vault_modify v currentFile
                             (content @ [0x0A, 0x0A] @ related_marker @ [0x0A] @ linkWithContext) of
                        None \<Rightarrow> v
                      | Some v' \<Rightarrow> v'))))"

section \<open>Auxiliary notions for the proofs\<close>

abbreviation kgs :: "plugin \<Rightarrow> KnowledgeGraphSettings" where
  "kgs st \<equiv> knowledgeGraphSettings (settings st)"

abbreviation score_ge :: "DocumentRelation \<Rightarrow> DocumentRelation \<Rightarrow> bool" where
  "score_ge a b \<equiv> js_ge (similarityScore a) (similarityScore b)"

text \<open>What holds of every relation that \<open>findRelatedDocuments\<close> pushes.\<close>

definition pushed_ok :: "KnowledgeGraphSettings \<Rightarrow> TFile \<Rightarrow> TFile list \<Rightarrow> DocumentRelation \<Rightarrow> bool" where
  "pushed_ok k source cands r =
     (js_ge (similarityScore r) (minSimilarityScore k) \<and> sourceFile r = source
      \<and> targetFile r \<in> set cands)"

text \<open>
  A document is \<open>marked\<close> when its body holds the heading; an iteration of
  \<open>addWikiLinksToDocuments\<close> on a relation is \<open>blocked\<close> when it cannot write: the
  source cannot be read, has no relations left after the cut, is marked, or cannot be
  written.
\<close>

definition marked :: "vault \<Rightarrow> jsstring \<Rightarrow> bool" where
  "marked v p = (case contents v p of None \<Rightarrow> False | Some c \<Rightarrow> js_includes c related_marker)"

definition blocked :: "plugin \<Rightarrow> DocumentRelation list \<Rightarrow> vault \<Rightarrow> DocumentRelation \<Rightarrow> bool" where
  "blocked st relations v r =
     (case contents v (path (sourceFile r)) of
        None \<Rightarrow> True
      | Some c \<Rightarrow> relatedFilesOf st relations r = [] \<or> js_includes c related_marker
                  \<or> \<not> canModify v (path (sourceFile r)))"

section \<open>A small vault\<close>

text \<open>
  Three documents A, B and C, a threshold of 0.5 and a cap of 5. The service answers
  the third and the fifth request (the analyses of A with B and of A with C) with texts
  that parse to the two scores given; every other answer is plain text.
\<close>

definition docA :: TFile where "docA = \<lparr>path = ascii ''A.md'', basename = ascii ''A''\<rparr>"
definition docB :: TFile where "docB = \<lparr>path = ascii ''B.md'', basename = ascii ''B''\<rparr>"
definition docC :: TFile where "docC = \<lparr>path = ascii ''C.md'', basename = ascii ''C''\<rparr>"

definition demo_vault :: vault where
  "demo_vault =
     \<lparr>markdownFiles = [docA, docB, docC],
      contents = (\<lambda>p. if p = ascii ''A.md'' then Some (ascii ''alpha'')
                      else if p = ascii ''B.md'' then Some (ascii ''beta'')
                      else if p = ascii ''C.md'' then Some (ascii ''gamma'')
                      else None),
      canModify = (\<lambda>p. True)\<rparr>"

definition demo_settings :: GeminiCopilotSettings where
  "demo_settings =
     \<lparr>geminiApiKey = ascii ''key'',
      geminiModel = ascii ''gemini-pro'',
      logHistory = [],
      knowledgeGraphSettings =
        \<lparr>enabled = True, minSimilarityScore = Fin 0.5, maxLinksPerDocument = Fin 5,
         autoAddLinks = False\<rparr>,
      promptTemplates =
        \<lparr>generateTitleT = ascii ''Title{{currentTitle}}: {{content}}'',
         summarizeTextT =
           ascii ''Please summarize the following text concisely:'' @ [0x0A, 0x0A]
             @ ascii ''{{content}}'' @ [0x0A, 0x0A] @ ascii ''Summary:'',
         expandTextT = ascii ''Expand: {{content}}'',
         generateHashtagsT = ascii ''Tags: {{content}}'',
         extractCoreConceptsT = ascii ''C: {{content}}'',
         analyzeDocumentRelationT =
           ascii ''{{sourceTitle}}: {{sourceConcepts}}; {{targetTitle}}: {{targetConcepts}}''\<rparr>\<rparr>"

definition demo_plugin :: plugin where
  "demo_plugin = \<lparr>settings = demo_settings, genAI = Some (ascii ''key''), sent = 0\<rparr>"

definition demo_env :: "number \<Rightarrow> number \<Rightarrow> env" where
  "demo_env scoreB scoreC =
     \<lparr>api = (\<lambda>n m p. if n = 2 then Completion (ascii ''{B}'')
                      else if n = 4 then Completion (ascii ''{C}'')
                      else Completion (ascii ''topics'')),
      clock = (\<lambda>n. ascii ''now''),
      JSON_parse = (\<lambda>s. None),
      JSON_parse_relation =
        (\<lambda>s. if s = ascii ''{B}''
              then Some \<lparr>analysisScore = scoreB, analysisContext = ascii ''same topic''\<rparr>
              else if s = ascii ''{C}''
              then Some \<lparr>analysisScore = scoreC, analysisContext = ascii ''loosely related''\<rparr>
              else None),
      Number_toString = (\<lambda>n. [])\<rparr>"

definition relAB :: "number \<Rightarrow> DocumentRelation" where
  "relAB s = \<lparr>sourceFile = docA, targetFile = docB, similarityScore = s,
              extractedContext = ascii ''same topic''\<rparr>"

definition relAC :: "number \<Rightarrow> DocumentRelation" where
  "relAC s = \<lparr>sourceFile = docA, targetFile = docC, similarityScore = s,
              extractedContext = ascii ''loosely related''\<rparr>"

text \<open>
  Two more surroundings: a service that completes every request with one given text
  (with a parser that reads the two JSON texts of the examples), and a service whose
  every call throws.
\<close>

definition answering :: "jsstring \<Rightarrow> env" where
  \<open>answering answer =
     (demo_env NaN NaN)
       \<lparr>api := (\<lambda>n m p. Completion answer),
        JSON_parse :=
          (\<lambda>s. if s = ascii ''{"concepts": ["a","b"]}''
                then Some (JObject [(ascii ''concepts'',
                                     JArray [JString (ascii ''a''), JString (ascii ''b'')])])
                else if s = ascii ''{"concepts": ["a", {"toString": 1}]}''
                then Some (JObject [(ascii ''concepts'',
                                     JArray [JString (ascii ''a''),
                                             JObject [(ascii ''toString'', JNumber (Fin 1))]])])
                else None)\<rparr>\<close>

definition throwing :: "jsstring option \<Rightarrow> env" where
  "throwing message = (demo_env NaN NaN)\<lparr>api := (\<lambda>n m p. Thrown message)\<rparr>"


text \<open>A vault of the one document A with a given body.\<close>

definition vault_with :: "jsstring \<Rightarrow> vault" where
  "vault_with body =
     \<lparr>markdownFiles = [docA],
      contents = (\<lambda>p. if p = ascii ''A.md'' then Some body else None),
      canModify = (\<lambda>p. True)\<rparr>"

section \<open>Properties of sanitizeFilename\<close>

lemma sanitizeFilename_map:
  "sanitizeFilename s = map (\<lambda>c. if c \<in> set invalidChars then 0x5F else c) s"
  by (induction s) simp_all

text \<open>
  C10. For every input string, \<open>sanitizeFilename\<close> returns a string of the same length in
  which each of the nine characters \<open>* " \ / < > : | ?\<close> has become an underscore and every
  other code unit is unchanged; the output holds none of the nine characters.
\<close>

theorem sanitizeFilename_replaces_invalid:
  "length (sanitizeFilename s) = length s
   \<and> (\<forall>i < length s.
         sanitizeFilename s ! i
           = (if s ! i \<in> {0x2A, 0x22, 0x5C, 0x2F, 0x3C, 0x3E, 0x3A, 0x7C, 0x3F}
              then 0x5F else s ! i))
   \<and> set (sanitizeFilename s) \<inter> {0x2A, 0x22, 0x5C, 0x2F, 0x3C, 0x3E, 0x3A, 0x7C, 0x3F} = {}"
proof -
  have cls: "set invalidChars = {0x2A, 0x22, 0x5C, 0x2F, 0x3C, 0x3E, 0x3A, 0x7C, 0x3F}"
    by (simp add: invalidChars_def)
  have u: "(0x5F :: jschar) \<notin> {0x2A, 0x22, 0x5C, 0x2F, 0x3C, 0x3E, 0x3A, 0x7C, 0x3F}"
    by simp
  have m: "sanitizeFilename s
             = map (\<lambda>c. if c \<in> {0x2A, 0x22, 0x5C, 0x2F, 0x3C, 0x3E, 0x3A, 0x7C, 0x3F}
                         then 0x5F else c) s"
    unfolding sanitizeFilename_map cls ..
  show ?thesis
  proof (intro conjI allI impI)
    show "length (sanitizeFilename s) = length s" by (simp add: m)
  next
    fix i assume "i < length s"
    then show "sanitizeFilename s ! i
           = (if s ! i \<in> {0x2A, 0x22, 0x5C, 0x2F, 0x3C, 0x3E, 0x3A, 0x7C, 0x3F}
              then 0x5F else s ! i)"
      by (simp only: m nth_map)
  next
    have "\<And>c. c \<in> set (sanitizeFilename s) \<Longrightarrow>
            c \<notin> {0x2A, 0x22, 0x5C, 0x2F, 0x3C, 0x3E, 0x3A, 0x7C, 0x3F}"
      unfolding m using u by (auto split: if_splits)
    then show "set (sanitizeFilename s)
                 \<inter> {0x2A, 0x22, 0x5C, 0x2F, 0x3C, 0x3E, 0x3A, 0x7C, 0x3F} = {}"
      by blast
  qed
qed

theorem sanitizeFilename_replaces_invalid_witness:
  "sanitizeFilename [0x61, 0x2A, 0x22, 0x5C, 0x2F, 0x3C, 0x3E, 0x3A, 0x7C, 0x3F, 0x62]
     = [0x61, 0x5F, 0x5F, 0x5F, 0x5F, 0x5F, 0x5F, 0x5F, 0x5F, 0x5F, 0x62]
   \<and> set (sanitizeFilename [0x61, 0x2A, 0x22, 0x5C, 0x2F, 0x3C, 0x3E, 0x3A, 0x7C, 0x3F, 0x62])
       \<inter> {0x2A, 0x22, 0x5C, 0x2F, 0x3C, 0x3E, 0x3A, 0x7C, 0x3F} = {}"
proof -
  let ?s = "[0x61, 0x2A, 0x22, 0x5C, 0x2F, 0x3C, 0x3E, 0x3A, 0x7C, 0x3F, 0x62] :: jsstring"
  let ?r = "[0x61, 0x5F, 0x5F, 0x5F, 0x5F, 0x5F, 0x5F, 0x5F, 0x5F, 0x5F, 0x62] :: jsstring"
  note t = sanitizeFilename_replaces_invalid [of ?s]
  have len: "length (sanitizeFilename ?s) = length ?r"
    using t [THEN conjunct1] by (simp only: list.size)
  have ev: "(if ?s ! i \<in> {0x2A, 0x22, 0x5C, 0x2F, 0x3C, 0x3E, 0x3A, 0x7C, 0x3F}
             then 0x5F else ?s ! i) = ?r ! i" if "i < length ?s" for i
  proof -
    from that have "i < 11" by simp
    then have "i = 0 \<or> i = 1 \<or> i = 2 \<or> i = 3 \<or> i = 4 \<or> i = 5 \<or> i = 6 \<or> i = 7
                 \<or> i = 8 \<or> i = 9 \<or> i = 10"
      by arith
    then show ?thesis by (elim disjE) simp_all
  qed
  have nth: "sanitizeFilename ?s ! i = ?r ! i" if "i < length (sanitizeFilename ?s)" for i
  proof -
    from that have i: "i < length ?s" by (simp only: t [THEN conjunct1])
    from t [THEN conjunct2, THEN conjunct1, rule_format, OF i] ev [OF i]
    show ?thesis by (rule trans)
  qed
  have eq: "sanitizeFilename ?s = ?r" using len nth by (rule nth_equalityI)
  from eq t [THEN conjunct2, THEN conjunct2] show ?thesis by (rule conjI)
qed

section \<open>Properties of findRelatedDocuments\<close>

lemma generateContent_kgs:
  "generateContent e st prompt = (r, st') \<Longrightarrow> kgs st' = kgs st"
  by (auto simp: generateContent_def logGeminiInteraction_def Let_def
           split: option.splits api_result.splits)

lemma extractCoreConcepts_kgs:
  "extractCoreConcepts e st content = (r, st') \<Longrightarrow> kgs st' = kgs st"
  by (auto simp: extractCoreConcepts_def Let_def dest: generateContent_kgs
           split: prod.splits option.splits if_splits)

lemma analyzeDocumentRelation_kgs:
  "analyzeDocumentRelation e st a b c d = (r, st') \<Longrightarrow> kgs st' = kgs st"
  by (auto simp: analyzeDocumentRelation_def Let_def dest: generateContent_kgs
           split: prod.splits option.splits if_splits)

lemma compareFiles_step:
  obtains (skip) st' where
      "compareFiles e v source sc (t # rest) relations st
         = compareFiles e v source sc rest relations st'"
      "kgs st' = kgs st"
  | (push) st' and a :: AnalysisResult where
      "compareFiles e v source sc (t # rest) relations st
         = compareFiles e v source sc rest
             (relations @ [\<lparr>sourceFile = source, targetFile = t,
                similarityScore = analysisScore a, extractedContext = analysisContext a\<rparr>]) st'"
      "kgs st' = kgs st"
      "js_ge (analysisScore a) (minSimilarityScore (kgs st))"
proof (cases "contents v (path t)")
  case None
  then show ?thesis by (intro skip [where st' = st]) simp_all
next
  case (Some targetContent)
  note rd = this
  show ?thesis
  proof (cases "js_trim targetContent = []")
    case True
    with rd show ?thesis by (intro skip [where st' = st]) simp_all
  next
    case False
    obtain tc st1 where ex: "extractCoreConcepts e st targetContent = (tc, st1)"
      by (cases "extractCoreConcepts e st targetContent")
    have k1: "kgs st1 = kgs st" using ex by (rule extractCoreConcepts_kgs)
    show ?thesis
    proof (cases "tc = None \<or> tc = Some []")
      case True
      with rd False ex k1 show ?thesis by (intro skip [where st' = st1]) auto
    next
      case nonempty: False
      then obtain targetConcepts where tc: "tc = Some targetConcepts" "targetConcepts \<noteq> []"
        by (cases tc) auto
      obtain ar st2 where an:
        "analyzeDocumentRelation e st1 (basename source) sc (basename t) targetConcepts = (ar, st2)"
        by (cases "analyzeDocumentRelation e st1 (basename source) sc (basename t) targetConcepts")
      have k2: "kgs st2 = kgs st" using an k1 by (simp add: analyzeDocumentRelation_kgs)
      show ?thesis
      proof (cases ar)
        case None
        with rd False ex tc an k2 show ?thesis by (intro skip [where st' = st2]) auto
      next
        case (Some a)
        show ?thesis
        proof (cases "js_ge (analysisScore a) (minSimilarityScore (kgs st2))")
          case True
          with rd False ex tc an k2 Some show ?thesis by (intro push [where st' = st2 and a = a]) auto
        next
          case nope: False
          with rd False ex tc an k2 Some show ?thesis by (intro skip [where st' = st2]) auto
        qed
      qed
    qed
  qed
qed

lemma compareFiles_inv:
  "(\<forall>r \<in> set relations. pushed_ok (kgs st) source cs r) \<Longrightarrow> set cands \<subseteq> set cs \<Longrightarrow>
   (\<forall>r \<in> set (fst (compareFiles e v source sc cands relations st)). pushed_ok (kgs st) source cs r)
   \<and> kgs (snd (compareFiles e v source sc cands relations st)) = kgs st"
proof (induction cands arbitrary: relations st)
  case Nil
  then show ?case by simp
next
  case (Cons t rest)
  have sub: "set rest \<subseteq> set cs" and t: "t \<in> set cs" using Cons.prems by simp_all
  show ?case
  proof (cases rule: compareFiles_step [of e v source sc t rest relations st])
    case (skip st')
    have "\<forall>r \<in> set relations. pushed_ok (kgs st') source cs r"
      using Cons.prems(1) skip(2) by simp
    from Cons.IH [OF this sub] skip show ?thesis by simp
  next
    case (push st' a)
    have "\<forall>r \<in> set (relations @ [\<lparr>sourceFile = source, targetFile = t,
                similarityScore = analysisScore a, extractedContext = analysisContext a\<rparr>]).
            pushed_ok (kgs st') source cs r"
      using Cons.prems(1) push(2,3) t by (auto simp: pushed_ok_def)
    from Cons.IH [OF this sub] push show ?thesis by simp
  qed
qed

lemma foundRelations_inv:
  "(\<forall>r \<in> set (fst (foundRelations e v st source sourceContent)).
      pushed_ok (kgs st) source (filter (\<lambda>file. path file \<noteq> path source) (markdownFiles v)) r)
   \<and> kgs (snd (foundRelations e v st source sourceContent)) = kgs st"
proof -
  obtain sc st1 where ex: "extractCoreConcepts e st sourceContent = (sc, st1)"
    by (cases "extractCoreConcepts e st sourceContent")
  have k1: "kgs st1 = kgs st" using ex by (rule extractCoreConcepts_kgs)
  show ?thesis
  proof (cases "sc = None \<or> sc = Some []")
    case True
    with ex k1 show ?thesis by (auto simp: foundRelations_def)
  next
    case False
    then obtain c where c: "sc = Some c" "c \<noteq> []" by (cases sc) auto
    let ?cs = "filter (\<lambda>file. path file \<noteq> path source) (markdownFiles v)"
    have "fst (foundRelations e v st source sourceContent) = fst (compareFiles e v source c ?cs [] st1)"
      "snd (foundRelations e v st source sourceContent) = snd (compareFiles e v source c ?cs [] st1)"
      using ex c by (simp_all add: foundRelations_def)
    then show ?thesis
      using compareFiles_inv [of "[]" st1 source ?cs ?cs e v c] k1 by simp
  qed
qed

lemma set_js_insort: "set (js_insort cmp x ys) = insert x (set ys)"
  by (induction ys) auto

lemma set_js_sort: "set (js_sort cmp xs) = set xs"
  by (induction xs) (simp_all add: js_sort_def set_js_insort)

lemma js_slice0_take: "\<exists>n. js_slice0 xs e = take n xs"
proof (cases e)
  case PosInf
  then have "js_slice0 xs e = take (length xs) xs" by (simp add: js_slice0_def)
  then show ?thesis ..
next
  case (Fin r)
  then show ?thesis by (auto simp: js_slice0_def Let_def)
qed (auto simp: js_slice0_def intro: exI [of _ 0])

lemma length_js_slice0:
  assumes "0 \<le> r"
  shows "real (length (js_slice0 xs (Fin r))) \<le> r"
proof -
  have "length (js_slice0 xs (Fin r)) \<le> nat \<lfloor>r\<rfloor>"
    using assms by (simp add: js_slice0_def Let_def)
  then have "real (length (js_slice0 xs (Fin r))) \<le> real (nat \<lfloor>r\<rfloor>)" by simp
  also have "\<dots> \<le> r" using assms by simp
  finally show ?thesis .
qed

lemma pos_sub: "a \<noteq> NaN \<Longrightarrow> b \<noteq> NaN \<Longrightarrow> num_less (Fin 0) (js_sub b a) = num_less a b"
  by (cases a; cases b) simp_all

lemma pos_sub_neq: "num_less (Fin 0) (js_sub b a) \<Longrightarrow> a \<noteq> b"
  by (cases a; cases b) auto

lemma js_ge_trans: "js_ge a b \<Longrightarrow> js_ge b c \<Longrightarrow> js_ge a c"
  by (cases a; cases b; cases c) (simp_all add: js_ge_def)

lemma js_ge_of_less: "num_less a b \<Longrightarrow> js_ge b a"
  by (cases a; cases b) (simp_all add: js_ge_def)

lemma js_ge_not_NaN: "js_ge a b \<Longrightarrow> a \<noteq> NaN \<and> b \<noteq> NaN"
  by (simp add: js_ge_def)

lemma sorted_js_insort:
  assumes "similarityScore x \<noteq> NaN" "\<forall>y \<in> set ys. similarityScore y \<noteq> NaN"
    and "sorted_wrt score_ge ys"
  shows "sorted_wrt score_ge (js_insort byScoreDesc x ys)"
  using assms
proof (induction ys)
  case Nil
  then show ?case by simp
next
  case (Cons y ys)
  have ny: "similarityScore y \<noteq> NaN" using Cons.prems by simp
  show ?case
  proof (cases "num_less (similarityScore x) (similarityScore y)")
    case True
    then have "js_insort byScoreDesc x (y # ys) = y # js_insort byScoreDesc x ys"
      using Cons.prems(1) ny by (simp add: byScoreDesc_def pos_sub)
    moreover have "sorted_wrt score_ge (js_insort byScoreDesc x ys)"
      using Cons by simp
    moreover have "\<forall>z \<in> set (js_insort byScoreDesc x ys). score_ge y z"
      using Cons.prems True by (auto simp: set_js_insort js_ge_of_less)
    ultimately show ?thesis by simp
  next
    case False
    then have eq: "js_insort byScoreDesc x (y # ys) = x # y # ys"
      using Cons.prems(1) ny by (simp add: byScoreDesc_def pos_sub)
    have xy: "score_ge x y" using False Cons.prems(1) ny by (simp add: js_ge_def)
    have "\<forall>z \<in> set ys. score_ge x z"
      using Cons.prems(3) xy by (auto intro: js_ge_trans)
    with xy Cons.prems(3) eq show ?thesis by simp
  qed
qed

lemma sorted_js_sort:
  "\<forall>y \<in> set xs. similarityScore y \<noteq> NaN \<Longrightarrow> sorted_wrt score_ge (js_sort byScoreDesc xs)"
proof (induction xs)
  case Nil
  then show ?case by (simp add: js_sort_def)
next
  case (Cons x xs)
  have "js_sort byScoreDesc (x # xs) = js_insort byScoreDesc x (js_sort byScoreDesc xs)"
    by (simp add: js_sort_def)
  moreover have "sorted_wrt score_ge (js_insort byScoreDesc x (js_sort byScoreDesc xs))"
    using Cons by (intro sorted_js_insort) (simp_all add: set_js_sort)
  ultimately show ?case by simp
qed

lemma filter_js_insort:
  "filter (\<lambda>r. similarityScore r = s) (js_insort byScoreDesc x ys)
     = filter (\<lambda>r. similarityScore r = s) (x # ys)"
proof (induction ys)
  case Nil
  then show ?case by simp
next
  case (Cons y ys)
  show ?case
  proof (cases "num_less (Fin 0) (byScoreDesc x y)")
    case True
    then have "similarityScore x \<noteq> similarityScore y"
      by (auto simp: byScoreDesc_def dest: pos_sub_neq)
    with True Cons show ?thesis by auto
  next
    case False
    then show ?thesis by simp
  qed
qed

lemma filter_js_sort:
  "filter (\<lambda>r. similarityScore r = s) (js_sort byScoreDesc xs)
     = filter (\<lambda>r. similarityScore r = s) xs"
proof (induction xs)
  case Nil
  then show ?case by (simp add: js_sort_def)
next
  case (Cons x xs)
  have "js_sort byScoreDesc (x # xs) = js_insort byScoreDesc x (js_sort byScoreDesc xs)"
    by (simp add: js_sort_def)
  then show ?case using Cons by (simp add: filter_js_insort)
qed


lemma prefix_filter_take: "prefix (filter P (take n xs)) (filter P xs)"
proof -
  have "filter P xs = filter P (take n xs) @ filter P (drop n xs)"
    by (metis append_take_drop_id filter_append)
  then show ?thesis by (simp add: prefix_def)
qed


lemma demo_found:
  "fst (foundRelations (demo_env sb sc) demo_vault demo_plugin docA (ascii ''alpha''))
    = (if js_ge sb (Fin 0.5) then [relAB sb] else [])
      @ (if js_ge sc (Fin 0.5) then [relAC sc] else [])"
  by (simp add: foundRelations_def demo_env_def demo_vault_def demo_plugin_def demo_settings_def
        docA_def docB_def docC_def extractCoreConcepts_def analyzeDocumentRelation_def
        generateContent_def logGeminiInteraction_def js_replace_def placeholder_def ascii_def
        jsonMatch_def js_trim_def is_white_def Let_def relAB_def relAC_def)

lemma demo_kgs:
  "knowledgeGraphSettings (settings demo_plugin)
     = \<lparr>enabled = True, minSimilarityScore = Fin 0.5, maxLinksPerDocument = Fin 5,
         autoAddLinks = False\<rparr>"
  by (simp add: demo_plugin_def demo_settings_def)

lemma findRelatedDocuments_fst:
  "fst (findRelatedDocuments e v st source sourceContent)
     = js_slice0 (js_sort byScoreDesc (fst (foundRelations e v st source sourceContent)))
         (maxLinksPerDocument (kgs st))"
proof -
  obtain rels st' where f: "foundRelations e v st source sourceContent = (rels, st')"
    by (cases "foundRelations e v st source sourceContent")
  then have "kgs st' = kgs st"
    using foundRelations_inv [of e v st source sourceContent] by simp
  with f show ?thesis by (simp add: findRelatedDocuments_def)
qed

lemma demo_related:
  "fst (findRelatedDocuments (demo_env sb sc) demo_vault demo_plugin docA (ascii ''alpha''))
     = js_slice0 (js_sort byScoreDesc
         (fst (foundRelations (demo_env sb sc) demo_vault demo_plugin docA (ascii ''alpha''))))
         (Fin 5)"
  by (simp add: findRelatedDocuments_fst demo_kgs)

lemma demo_related_08_03:
  "fst (findRelatedDocuments (demo_env (Fin 0.8) (Fin 0.3)) demo_vault demo_plugin docA
          (ascii ''alpha'')) = [relAB (Fin 0.8)]"
  by (simp add: demo_related demo_found js_ge_def js_sort_def js_slice0_def)

lemma demo_related_06_09:
  "fst (findRelatedDocuments (demo_env (Fin 0.6) (Fin 0.9)) demo_vault demo_plugin docA
          (ascii ''alpha'')) = [relAC (Fin 0.9), relAB (Fin 0.6)]"
  by (simp add: demo_related demo_found js_ge_def js_sort_def js_slice0_def byScoreDesc_def
        relAB_def relAC_def)


text \<open>
  C1. Whatever the vault, the answers of the service and the threshold, every relation
  that \<open>findRelatedDocuments\<close> returns has a score \<open>>=\<close> \<open>minSimilarityScore\<close>.
\<close>

theorem findRelatedDocuments_above_threshold:
  "\<forall>r \<in> set (fst (findRelatedDocuments e v st source sourceContent)).
     js_ge (similarityScore r) (minSimilarityScore (knowledgeGraphSettings (settings st)))"
proof
  fix r
  assume r: "r \<in> set (fst (findRelatedDocuments e v st source sourceContent))"
  obtain rels st' where f: "foundRelations e v st source sourceContent = (rels, st')"
    by (cases "foundRelations e v st source sourceContent")
  obtain n where "js_slice0 (js_sort byScoreDesc rels) (maxLinksPerDocument (kgs st'))
                    = take n (js_sort byScoreDesc rels)"
    using js_slice0_take by blast
  with r f have "r \<in> set (take n (js_sort byScoreDesc rels))"
    by (simp add: findRelatedDocuments_def)
  then have "r \<in> set rels" using set_js_sort [of byScoreDesc rels] by (auto dest: in_set_takeD)
  then show "js_ge (similarityScore r) (minSimilarityScore (kgs st))"
    using foundRelations_inv [of e v st source sourceContent] f by (simp add: pushed_ok_def)
qed

theorem findRelatedDocuments_above_threshold_witness:
  "fst (findRelatedDocuments (demo_env (Fin 0.8) (Fin 0.3)) demo_vault demo_plugin docA
          (ascii ''alpha'')) = [relAB (Fin 0.8)]
   \<and> js_ge (similarityScore (relAB (Fin 0.8))) (Fin 0.5)"
proof -
  let ?res = "fst (findRelatedDocuments (demo_env (Fin 0.8) (Fin 0.3)) demo_vault demo_plugin
                docA (ascii ''alpha''))"
  have mem: "relAB (Fin 0.8) \<in> set ?res" by (simp only: demo_related_08_03 list.set_intros)
  have min: "minSimilarityScore (knowledgeGraphSettings (settings demo_plugin)) = Fin 0.5"
    by (simp add: demo_kgs)
  have "js_ge (similarityScore (relAB (Fin 0.8)))
          (minSimilarityScore (knowledgeGraphSettings (settings demo_plugin)))"
    using findRelatedDocuments_above_threshold mem by (rule bspec)
  then have "js_ge (similarityScore (relAB (Fin 0.8))) (Fin 0.5)" by (simp only: min)
  with demo_related_08_03 show ?thesis by (rule conjI)
qed

text \<open>
  C2. With a cap \<open>maxLinksPerDocument = m\<close> that is not negative, \<open>findRelatedDocuments\<close>
  returns at most \<open>m\<close> relations; the result is sorted by score, descending, and the
  relations of one score stand in the order in which they were found (they are a prefix
  of the found relations of that score).
\<close>


theorem findRelatedDocuments_capped_sorted:
  assumes "maxLinksPerDocument (knowledgeGraphSettings (settings st)) = Fin m" and "0 \<le> m"
  shows "real (length (fst (findRelatedDocuments e v st source sourceContent))) \<le> m
    \<and> sorted_wrt (\<lambda>a b. js_ge (similarityScore a) (similarityScore b))
         (fst (findRelatedDocuments e v st source sourceContent))
    \<and> (\<forall>s. prefix
          (filter (\<lambda>r. similarityScore r = s)
             (fst (findRelatedDocuments e v st source sourceContent)))
          (filter (\<lambda>r. similarityScore r = s)
             (fst (foundRelations e v st source sourceContent))))"
proof -
  obtain rels st' where f: "foundRelations e v st source sourceContent = (rels, st')"
    by (cases "foundRelations e v st source sourceContent")
  have inv: "\<forall>r \<in> set rels. js_ge (similarityScore r) (minSimilarityScore (kgs st))"
    and k: "kgs st' = kgs st"
    using foundRelations_inv [of e v st source sourceContent] f by (simp_all add: pushed_ok_def)
  let ?sorted = "js_sort byScoreDesc rels"
  have res: "fst (findRelatedDocuments e v st source sourceContent) = js_slice0 ?sorted (Fin m)"
    using f k assms(1) by (simp add: findRelatedDocuments_def)
  obtain n where n: "js_slice0 ?sorted (Fin m) = take n ?sorted"
    using js_slice0_take by blast
  have "\<forall>r \<in> set rels. similarityScore r \<noteq> NaN"
    using inv by (auto dest: js_ge_not_NaN)
  then have "sorted_wrt score_ge ?sorted" by (rule sorted_js_sort)
  then have s: "sorted_wrt score_ge (take n ?sorted)" by (rule sorted_wrt_take)
  have p: "prefix (filter (\<lambda>r. similarityScore r = s) (take n ?sorted))
             (filter (\<lambda>r. similarityScore r = s) rels)" for s
    using prefix_filter_take [of "\<lambda>r. similarityScore r = s" n ?sorted]
    by (simp add: filter_js_sort)
  have l: "real (length (js_slice0 ?sorted (Fin m))) \<le> m"
    using assms(2) by (rule length_js_slice0)
  show ?thesis using l s p by (simp add: res n f)
qed

theorem findRelatedDocuments_capped_sorted_witness:
  "maxLinksPerDocument (knowledgeGraphSettings (settings demo_plugin)) = Fin 5
   \<and> (0::real) \<le> 5
   \<and> fst (findRelatedDocuments (demo_env (Fin 0.6) (Fin 0.9)) demo_vault demo_plugin docA
            (ascii ''alpha'')) = [relAC (Fin 0.9), relAB (Fin 0.6)]
   \<and> real (length (fst (findRelatedDocuments (demo_env (Fin 0.6) (Fin 0.9)) demo_vault
                          demo_plugin docA (ascii ''alpha'')))) \<le> 5
   \<and> sorted_wrt (\<lambda>a b. js_ge (similarityScore a) (similarityScore b))
         (fst (findRelatedDocuments (demo_env (Fin 0.6) (Fin 0.9)) demo_vault demo_plugin docA
                 (ascii ''alpha'')))"
proof -
  have cap: "maxLinksPerDocument (knowledgeGraphSettings (settings demo_plugin)) = Fin 5"
    by (simp add: demo_kgs)
  have nonneg: "(0::real) \<le> 5" by simp
  note t = findRelatedDocuments_capped_sorted
             [OF cap nonneg, of "demo_env (Fin 0.6) (Fin 0.9)" demo_vault docA "ascii ''alpha''"]
  from cap nonneg demo_related_06_09 t [THEN conjunct1] t [THEN conjunct2, THEN conjunct1]
  show ?thesis by (intro conjI)
qed

text \<open>
  The claim that every pushed relation has a score between 0.0 and 1.0 fails: the score
  of the answer is stored as it is, and an answer of 1.5 passes the threshold.
\<close>

theorem relation_score_unbounded_counterexample:
  "\<not> (\<forall>r \<in> set (fst (foundRelations (demo_env (Fin 1.5) (Fin 0.3)) demo_vault demo_plugin
                            docA (ascii ''alpha''))).
          js_ge (similarityScore r) (Fin 0) \<and> js_ge (Fin 1) (similarityScore r)
          \<and> sourceFile r \<noteq> targetFile r)"
  by (simp add: demo_found js_ge_def relAB_def)

text \<open>
  C3 (as amended). Every relation pushed by \<open>findRelatedDocuments\<close> has a score
  \<open>>=\<close> \<open>minSimilarityScore\<close> (hence \<open>>= 0.0\<close> when the threshold is), the given source
  file as its source, and a target that is a file of the vault with a path other than the
  source's. No upper bound is imposed on the score.
\<close>


theorem pushed_relations_invariant:
  "\<forall>r \<in> set (fst (foundRelations e v st source sourceContent)).
     js_ge (similarityScore r) (minSimilarityScore (knowledgeGraphSettings (settings st)))
     \<and> (js_ge (minSimilarityScore (knowledgeGraphSettings (settings st))) (Fin 0)
          \<longrightarrow> js_ge (similarityScore r) (Fin 0))
     \<and> sourceFile r = source
     \<and> targetFile r \<in> set (markdownFiles v)
     \<and> path (targetFile r) \<noteq> path (sourceFile r)"
  using foundRelations_inv [of e v st source sourceContent]
  by (auto simp: pushed_ok_def intro: js_ge_trans)

theorem pushed_relations_invariant_witness:
  "fst (foundRelations (demo_env (Fin 0.8) (Fin 0.3)) demo_vault demo_plugin docA
          (ascii ''alpha'')) = [relAB (Fin 0.8)]
   \<and> js_ge (similarityScore (relAB (Fin 0.8))) (Fin 0.5)
   \<and> js_ge (Fin 0.5) (Fin 0)
   \<and> js_ge (similarityScore (relAB (Fin 0.8))) (Fin 0)
   \<and> sourceFile (relAB (Fin 0.8)) = docA
   \<and> targetFile (relAB (Fin 0.8)) \<in> set (markdownFiles demo_vault)
   \<and> path (targetFile (relAB (Fin 0.8))) \<noteq> path (sourceFile (relAB (Fin 0.8)))"
proof -
  let ?res = "fst (foundRelations (demo_env (Fin 0.8) (Fin 0.3)) demo_vault demo_plugin docA
                (ascii ''alpha''))"
  have res: "?res = [relAB (Fin 0.8)]" by (simp add: demo_found js_ge_def)
  have mem: "relAB (Fin 0.8) \<in> set ?res" by (simp only: res list.set_intros)
  have min: "minSimilarityScore (knowledgeGraphSettings (settings demo_plugin)) = Fin 0.5"
    by (simp add: demo_kgs)
  have pos: "js_ge (Fin 0.5) (Fin 0)" by (simp add: js_ge_def)
  note t = pushed_relations_invariant [THEN bspec, OF mem]
  note t' = t [unfolded min]
  have a: "js_ge (similarityScore (relAB (Fin 0.8))) (Fin 0.5)" by (rule t' [THEN conjunct1])
  have b: "js_ge (similarityScore (relAB (Fin 0.8))) (Fin 0)"
    by (rule t' [THEN conjunct2, THEN conjunct1, rule_format, OF pos])
  from res a pos b t' [THEN conjunct2, THEN conjunct2] show ?thesis by blast
qed

section \<open>Properties of the generation client\<close>

text \<open>
  The claim that every invocation appends one log entry fails where no client is
  configured: \<open>generateContent\<close> returns before it builds the entry.
\<close>

theorem unconfigured_call_not_logged_counterexample:
  "length (logHistory (settings (snd (generateContent (throwing None)
             (demo_plugin\<lparr>genAI := None\<rparr>) (ascii ''hello'')))))
     \<noteq> length (logHistory (settings (demo_plugin\<lparr>genAI := None\<rparr>))) + 1"
  by (simp add: generateContent_def)

text \<open>
  C4 (as amended). Without a client, \<open>generateContent\<close> returns a null text and leaves the
  state, the log included, as it was. With a client, every invocation appends exactly one
  entry, holding the prompt and the model; when the call completes, the entry holds the
  text and no error and the text is returned; when the call throws, the entry holds no
  response and the message of what was thrown, and the caller receives a null text.
\<close>

theorem generateContent_logs:
  "(genAI st = None \<longrightarrow> generateContent e st prompt = (None, st))
   \<and> (genAI st \<noteq> None \<longrightarrow>
        (\<exists>entry.
           logHistory (settings (snd (generateContent e st prompt)))
             = logHistory (settings st) @ [entry]
           \<and> inputPrompt entry = prompt
           \<and> model entry = geminiModel (settings st)
           \<and> (case api e (sent st) (geminiModel (settings st)) prompt of
                 Completion text \<Rightarrow>
                   fst (generateContent e st prompt) = Some text
                   \<and> outputResponse entry = Some text \<and> error entry = None
               | Thrown message \<Rightarrow>
                   fst (generateContent e st prompt) = None
                   \<and> outputResponse entry = None \<and> error entry = message)))"
  by (auto simp: generateContent_def logGeminiInteraction_def Let_def
           split: option.splits api_result.splits)

theorem generateContent_logs_witness:
  "genAI (demo_plugin\<lparr>genAI := None\<rparr>) = None
   \<and> generateContent (throwing None) (demo_plugin\<lparr>genAI := None\<rparr>) (ascii ''hello'')
       = (None, demo_plugin\<lparr>genAI := None\<rparr>)
   \<and> genAI demo_plugin \<noteq> None
   \<and> (\<exists>entry.
         logHistory (settings (snd (generateContent (throwing (Some (ascii ''quota'')))
                                      demo_plugin (ascii ''hello''))))
           = logHistory (settings demo_plugin) @ [entry]
         \<and> fst (generateContent (throwing (Some (ascii ''quota''))) demo_plugin
                  (ascii ''hello'')) = None
         \<and> outputResponse entry = None \<and> error entry = Some (ascii ''quota''))"
proof -
  have off: "genAI (demo_plugin\<lparr>genAI := None\<rparr>) = None" by simp
  have on: "genAI demo_plugin \<noteq> None" by (simp add: demo_plugin_def)
  have thr: "api (throwing (Some (ascii ''quota''))) (sent demo_plugin)
               (geminiModel (settings demo_plugin)) (ascii ''hello'')
             = Thrown (Some (ascii ''quota''))"
    by (simp add: throwing_def)
  note a = generateContent_logs [of "demo_plugin\<lparr>genAI := None\<rparr>" "throwing None"
             "ascii ''hello''", THEN conjunct1, rule_format, OF off]
  note b = generateContent_logs [of demo_plugin "throwing (Some (ascii ''quota''))"
             "ascii ''hello''", THEN conjunct2, rule_format, OF on]
  from b obtain entry where
    "logHistory (settings (snd (generateContent (throwing (Some (ascii ''quota'')))
                                      demo_plugin (ascii ''hello''))))
           = logHistory (settings demo_plugin) @ [entry]"
    "fst (generateContent (throwing (Some (ascii ''quota''))) demo_plugin
                  (ascii ''hello'')) = None
         \<and> outputResponse entry = None \<and> error entry = Some (ascii ''quota'')"
    unfolding thr by auto
  with off on a show ?thesis by blast
qed

section \<open>Properties of concept extraction\<close>

text \<open>The match of the pattern is the span from the first \<open>{\<close> to the last \<open>}\<close>.\<close>

lemma jsonMatch_span:
  "jsonMatch text = Some m \<longleftrightarrow>
     (\<exists>pre mid post. text = pre @ m @ post \<and> m = 0x7B # mid @ [0x7D]
        \<and> 0x7B \<notin> set pre \<and> 0x7D \<notin> set post)"
proof
  assume a: "jsonMatch text = Some m"
  let ?pre = "takeWhile (\<lambda>c. c \<noteq> 0x7B) text"
  obtain c rest where d: "dropWhile (\<lambda>c. c \<noteq> 0x7B) text = c # rest"
    using a by (auto simp: jsonMatch_def split: list.splits)
  then have c: "c = 0x7B" using hd_dropWhile [of "\<lambda>c. c \<noteq> 0x7B" "text"] by auto
  have r: "0x7D \<in> set rest" and m: "m = c # rev (dropWhile (\<lambda>d. d \<noteq> 0x7D) (rev rest))"
    using a d by (auto simp: jsonMatch_def split: if_splits)
  let ?post = "rev (takeWhile (\<lambda>d. d \<noteq> 0x7D) (rev rest))"
  obtain tl' where t: "dropWhile (\<lambda>d. d \<noteq> 0x7D) (rev rest) = 0x7D # tl'"
  proof (cases "dropWhile (\<lambda>d. d \<noteq> 0x7D) (rev rest)")
    case Nil
    then show ?thesis using r by (auto simp: dropWhile_eq_Nil_conv)
  next
    case (Cons x xs)
    then have "x = 0x7D" using hd_dropWhile [of "\<lambda>d. d \<noteq> 0x7D" "rev rest"] by auto
    with Cons that show ?thesis by simp
  qed
  have "rev rest = takeWhile (\<lambda>d. d \<noteq> 0x7D) (rev rest) @ dropWhile (\<lambda>d. d \<noteq> 0x7D) (rev rest)"
    by simp
  then have "rev (rev rest) = rev (takeWhile (\<lambda>d. d \<noteq> 0x7D) (rev rest)
                 @ dropWhile (\<lambda>d. d \<noteq> 0x7D) (rev rest))"
    by simp
  then have rest: "rest = rev (dropWhile (\<lambda>d. d \<noteq> 0x7D) (rev rest)) @ ?post"
    by (simp only: rev_rev_ident rev_append)
  have "text = ?pre @ c # rest" using d by (metis takeWhile_dropWhile_id)
  then have "text = ?pre @ m @ ?post" using rest m by simp
  moreover have "m = 0x7B # rev tl' @ [0x7D]" using m c t by simp
  moreover have "0x7B \<notin> set ?pre" by (auto dest: set_takeWhileD)
  moreover have "0x7D \<notin> set ?post" by (auto dest: set_takeWhileD)
  ultimately show "\<exists>pre mid post. text = pre @ m @ post \<and> m = 0x7B # mid @ [0x7D]
        \<and> 0x7B \<notin> set pre \<and> 0x7D \<notin> set post"
    by blast
next
  assume "\<exists>pre mid post. text = pre @ m @ post \<and> m = 0x7B # mid @ [0x7D]
        \<and> 0x7B \<notin> set pre \<and> 0x7D \<notin> set post"
  then obtain pre mid post where t: "text = pre @ m @ post" and m: "m = 0x7B # mid @ [0x7D]"
    and pre: "0x7B \<notin> set pre" and post: "0x7D \<notin> set post"
    by blast
  have d: "dropWhile (\<lambda>c. c \<noteq> 0x7B) text = 0x7B # (mid @ [0x7D] @ post)"
  proof -
    have "dropWhile (\<lambda>c. c \<noteq> 0x7B) (pre @ (0x7B # mid @ [0x7D] @ post))
            = dropWhile (\<lambda>c. c \<noteq> 0x7B) (0x7B # mid @ [0x7D] @ post)"
      using pre by (intro dropWhile_append2) auto
    then show ?thesis by (simp add: t m)
  qed
  have "rev (mid @ [0x7D] @ post) = rev post @ (0x7D # rev mid)" by simp
  moreover have "dropWhile (\<lambda>d. d \<noteq> 0x7D) (rev post @ (0x7D # rev mid))
                   = dropWhile (\<lambda>d. d \<noteq> 0x7D) (0x7D # rev mid)"
    using post by (intro dropWhile_append2) auto
  ultimately have "dropWhile (\<lambda>d. d \<noteq> 0x7D) (rev (mid @ [0x7D] @ post)) = 0x7D # rev mid"
    by simp
  then show "jsonMatch text = Some m"
    by (simp add: jsonMatch_def d m)
qed

lemma answering_response:
  "generateContent (answering t) demo_plugin p
     = (Some t, snd (generateContent (answering t) demo_plugin p))"
  by (simp add: generateContent_def answering_def demo_plugin_def demo_env_def Let_def)

lemma throwing_response:
  "generateContent (throwing m) demo_plugin p
     = (None, snd (generateContent (throwing m) demo_plugin p))"
  by (simp add: generateContent_def throwing_def demo_plugin_def demo_env_def Let_def)

text \<open>
  The claim that \<open>extractCoreConcepts\<close> returns null only when the generation call failed
  does not hold: a call that completes with the empty text gives null as well.
\<close>

theorem empty_completion_gives_null_counterexample:
  "(\<forall>prompt. fst (generateContent (answering []) demo_plugin prompt) = Some [])
   \<and> fst (extractCoreConcepts (answering []) demo_plugin (ascii ''alpha'')) = None"
proof
  show "\<forall>prompt. fst (generateContent (answering []) demo_plugin prompt) = Some []"
    using answering_response [of "[]"] by (metis fst_conv)
  show "fst (extractCoreConcepts (answering []) demo_plugin (ascii ''alpha'')) = None"
    by (simp add: extractCoreConcepts_def Let_def split_def answering_response [THEN arg_cong, of fst])
qed

lemma those_map_Some: "those (map Some xs) = Some xs"
  by (induction xs) simp_all

lemma js_join_strings: "js_join nts sep (map JString ss) = Some (join_with sep ss)"
proof -
  have "map (\<lambda>x. if x = JNull then Some [] else ToString nts x) (map JString ss) = map Some ss"
    by (induction ss) simp_all
  then show ?thesis by (simp only: js_join_def those_map_Some option.map)
qed

text \<open>
  C8 (as amended). \<open>extractCoreConcepts\<close> makes one generation call, and returns null
  exactly when that call gives no text or the empty text. For a text that is not empty:
  when the span from its first \<open>{\<close> to its last \<open>}\<close> parses to an object whose
  \<open>concepts\<close> is an array and the join of the array does not throw, the result is the
  array joined with \<open>', '\<close> (for an array of strings, the strings with \<open>', '\<close> between
  them); when there is no such span, when the parse throws, when the parsed value has no
  such array, or when the join throws, the result is the text itself. Every throw is
  caught inside the function.
\<close>

theorem extractCoreConcepts_result:
  assumes "generateContent e st
             (js_replace (extractCoreConceptsT (promptTemplates (settings st)))
                (placeholder ''content'')
                (take 2000 content @ (if length content > 2000 then truncation_mark else [])))
           = (response, st')"
  shows "snd (extractCoreConcepts e st content) = st'
    \<and> (fst (extractCoreConcepts e st content) = None
         \<longleftrightarrow> response = None \<or> response = Some [])
    \<and> (\<forall>text m kvs xs joined.
          response = Some text \<longrightarrow> text \<noteq> [] \<longrightarrow> jsonMatch text = Some m \<longrightarrow>
          JSON_parse e m = Some (JObject kvs) \<longrightarrow>
          map_of kvs (ascii ''concepts'') = Some (JArray xs) \<longrightarrow>
          js_join (Number_toString e) (ascii '', '') xs = Some joined \<longrightarrow>
          fst (extractCoreConcepts e st content) = Some joined)
    \<and> (\<forall>text m kvs ss.
          response = Some text \<longrightarrow> text \<noteq> [] \<longrightarrow> jsonMatch text = Some m \<longrightarrow>
          JSON_parse e m = Some (JObject kvs) \<longrightarrow>
          map_of kvs (ascii ''concepts'') = Some (JArray (map JString ss)) \<longrightarrow>
          fst (extractCoreConcepts e st content) = Some (join_with (ascii '', '') ss))
    \<and> (\<forall>text m kvs xs.
          response = Some text \<longrightarrow> text \<noteq> [] \<longrightarrow> jsonMatch text = Some m \<longrightarrow>
          JSON_parse e m = Some (JObject kvs) \<longrightarrow>
          map_of kvs (ascii ''concepts'') = Some (JArray xs) \<longrightarrow>
          js_join (Number_toString e) (ascii '', '') xs = None \<longrightarrow>
          fst (extractCoreConcepts e st content) = Some text)
    \<and> (\<forall>text. response = Some text \<longrightarrow> text \<noteq> [] \<longrightarrow> jsonMatch text = None \<longrightarrow>
          fst (extractCoreConcepts e st content) = Some text)
    \<and> (\<forall>text m. response = Some text \<longrightarrow> text \<noteq> [] \<longrightarrow> jsonMatch text = Some m \<longrightarrow>
          JSON_parse e m = None \<longrightarrow>
          fst (extractCoreConcepts e st content) = Some text)
    \<and> (\<forall>text m conceptsData.
          response = Some text \<longrightarrow> text \<noteq> [] \<longrightarrow> jsonMatch text = Some m \<longrightarrow>
          JSON_parse e m = Some conceptsData \<longrightarrow> concepts_joined e conceptsData = None \<longrightarrow>
          fst (extractCoreConcepts e st content) = Some text)"
proof (intro conjI allI impI)
  show "snd (extractCoreConcepts e st content) = st'"
    using assms
    by (simp add: extractCoreConcepts_def Let_def split: option.splits)
  show "(fst (extractCoreConcepts e st content) = None)
          = (response = None \<or> response = Some [])"
    using assms
    by (auto simp: extractCoreConcepts_def Let_def split: option.splits)
next
  fix rsp m kvs xs joined
  assume "response = Some rsp" "rsp \<noteq> []" "jsonMatch rsp = Some m"
    "JSON_parse e m = Some (JObject kvs)" "map_of kvs (ascii ''concepts'') = Some (JArray xs)"
    "js_join (Number_toString e) (ascii '', '') xs = Some joined"
  then show "fst (extractCoreConcepts e st content) = Some joined"
    using assms by (simp add: extractCoreConcepts_def Let_def concepts_joined_def)
next
  fix rsp m kvs ss
  assume "response = Some rsp" "rsp \<noteq> []" "jsonMatch rsp = Some m"
    "JSON_parse e m = Some (JObject kvs)"
    "map_of kvs (ascii ''concepts'') = Some (JArray (map JString ss))"
  then show "fst (extractCoreConcepts e st content) = Some (join_with (ascii '', '') ss)"
    using assms
    by (simp add: extractCoreConcepts_def Let_def concepts_joined_def js_join_strings)
next
  fix rsp m kvs xs
  assume "response = Some rsp" "rsp \<noteq> []" "jsonMatch rsp = Some m"
    "JSON_parse e m = Some (JObject kvs)" "map_of kvs (ascii ''concepts'') = Some (JArray xs)"
    "js_join (Number_toString e) (ascii '', '') xs = None"
  then show "fst (extractCoreConcepts e st content) = Some rsp"
    using assms by (simp add: extractCoreConcepts_def Let_def concepts_joined_def)
next
  fix rsp
  assume "response = Some rsp" "rsp \<noteq> []" "jsonMatch rsp = None"
  then show "fst (extractCoreConcepts e st content) = Some rsp"
    using assms by (simp add: extractCoreConcepts_def Let_def)
next
  fix rsp m
  assume "response = Some rsp" "rsp \<noteq> []" "jsonMatch rsp = Some m" "JSON_parse e m = None"
  then show "fst (extractCoreConcepts e st content) = Some rsp"
    using assms by (simp add: extractCoreConcepts_def Let_def)
next
  fix rsp m conceptsData
  assume "response = Some rsp" "rsp \<noteq> []" "jsonMatch rsp = Some m"
    "JSON_parse e m = Some conceptsData" "concepts_joined e conceptsData = None"
  then show "fst (extractCoreConcepts e st content) = Some rsp"
    using assms by (simp add: extractCoreConcepts_def Let_def)
qed

theorem extractCoreConcepts_result_witness:
  \<open>fst (extractCoreConcepts (answering (ascii ''{"concepts": ["a","b"]}'')) demo_plugin
          (ascii ''alpha'')) = Some (ascii ''a, b'')
   \<and> fst (extractCoreConcepts (answering (ascii ''{"concepts": ["a", {"toString": 1}]}''))
          demo_plugin (ascii ''alpha'')) = Some (ascii ''{"concepts": ["a", {"toString": 1}]}'')
   \<and> fst (extractCoreConcepts (answering (ascii ''just some text'')) demo_plugin
          (ascii ''alpha'')) = Some (ascii ''just some text'')
   \<and> fst (extractCoreConcepts (throwing None) demo_plugin (ascii ''alpha'')) = None\<close>
proof -
  let ?json = \<open>ascii ''{"concepts": ["a","b"]}''\<close>
  let ?bad = \<open>ascii ''{"concepts": ["a", {"toString": 1}]}''\<close>
  let ?plain = "ascii ''just some text''"
  let ?kvs = "[(ascii ''concepts'', JArray [JString (ascii ''a''), JString (ascii ''b'')])]"
  let ?xs = "[JString (ascii ''a''), JObject [(ascii ''toString'', JNumber (Fin 1))]]"
  have j1: "?json \<noteq> []" and j2: "jsonMatch ?json = Some ?json"
    by (simp_all add: ascii_def jsonMatch_def)
  have j3: "JSON_parse (answering ?json) ?json = Some (JObject ?kvs)"
    by (simp add: answering_def)
  have j4: "map_of ?kvs (ascii ''concepts'')
              = Some (JArray (map JString [ascii ''a'', ascii ''b'']))"
    by simp
  have j5: "join_with (ascii '', '') [ascii ''a'', ascii ''b''] = ascii ''a, b''"
    by (simp add: ascii_def)
  have b1: "?bad \<noteq> []" and b2: "jsonMatch ?bad = Some ?bad"
    by (simp_all add: ascii_def jsonMatch_def)
  have b3: "JSON_parse (answering ?bad) ?bad = Some (JObject [(ascii ''concepts'', JArray ?xs)])"
    by (simp add: answering_def ascii_def)
  have b4: "map_of [(ascii ''concepts'', JArray ?xs)] (ascii ''concepts'') = Some (JArray ?xs)"
    by simp
  have b5: "js_join (Number_toString (answering ?bad)) (ascii '', '') ?xs = None"
    by (simp add: js_join_def)
  have p1: "?plain \<noteq> []" and p2: "jsonMatch ?plain = None"
    by (simp_all add: ascii_def jsonMatch_def)
  note a = extractCoreConcepts_result [OF answering_response [of ?json], of "ascii ''alpha''",
             THEN conjunct2, THEN conjunct2, THEN conjunct2, THEN conjunct1, rule_format,
             OF refl j1 j2 j3 j4]
  note d = extractCoreConcepts_result [OF answering_response [of ?bad], of "ascii ''alpha''",
             THEN conjunct2, THEN conjunct2, THEN conjunct2, THEN conjunct2, THEN conjunct1,
             rule_format, OF refl b1 b2 b3 b4 b5]
  note b = extractCoreConcepts_result [OF answering_response [of ?plain], of "ascii ''alpha''",
             THEN conjunct2, THEN conjunct2, THEN conjunct2, THEN conjunct2, THEN conjunct2,
             THEN conjunct1, rule_format, OF refl p1 p2]
  note c = extractCoreConcepts_result [OF throwing_response [of None], of "ascii ''alpha''",
             THEN conjunct2, THEN conjunct1]
  from c have c': "fst (extractCoreConcepts (throwing None) demo_plugin (ascii ''alpha'')) = None"
    by blast
  from a have a': "fst (extractCoreConcepts (answering ?json) demo_plugin (ascii ''alpha''))
                    = Some (ascii ''a, b'')"
    by (simp only: j5)
  from a' d b c' show ?thesis by blast
qed

section \<open>Properties of the batch link append\<close>

lemma split_first_prefix:
  "prefix pat s \<Longrightarrow> split_first pat s = Some ([], drop (length pat) s)"
  by (cases s) auto

lemma split_first_Some:
  "split_first pat s = Some (a, b) \<Longrightarrow> s = a @ pat @ b"
proof (induction s arbitrary: a)
  case Nil
  then show ?case by (auto split: if_splits)
next
  case (Cons c cs)
  show ?case
  proof (cases "prefix pat (c # cs)")
    case True
    then have "split_first pat (c # cs) = Some ([], drop (length pat) (c # cs))"
      by (rule split_first_prefix)
    with Cons.prems have ab: "a = []" "b = drop (length pat) (c # cs)" by simp_all
    from True obtain zs where zs: "c # cs = pat @ zs" by (auto simp: prefix_def)
    then have "drop (length pat) (c # cs) = zs" by simp
    with ab zs show ?thesis by simp
  next
    case False
    with Cons.prems obtain a' where "split_first pat cs = Some (a', b)" "a = c # a'"
      by (auto split: option.splits)
    with Cons.IH show ?thesis by simp
  qed
qed

lemma split_first_append: "split_first pat (a @ pat @ b) \<noteq> None"
proof (induction a)
  case Nil
  have "prefix pat (pat @ b)" by simp
  then show ?case by (simp add: split_first_prefix)
next
  case (Cons c cs)
  then show ?case by (auto split: option.splits)
qed

lemma js_includes_iff: "js_includes s pat \<longleftrightarrow> (\<exists>a b. s = a @ pat @ b)"
proof
  assume "js_includes s pat"
  then obtain a b where "split_first pat s = Some (a, b)"
    by (auto simp: js_includes_def)
  then show "\<exists>a b. s = a @ pat @ b" by (blast dest: split_first_Some)
next
  assume "\<exists>a b. s = a @ pat @ b"
  then obtain a b where "s = a @ pat @ b" by blast
  then show "js_includes s pat" using split_first_append [of pat a b]
    by (simp add: js_includes_def)
qed

lemma section_has_marker: "js_includes (content @ relatedLinksSection rf) related_marker"
proof -
  have "content @ relatedLinksSection rf
          = (content @ [0x0A, 0x0A]) @ related_marker @ ([0x0A] @ concat (map linkText rf))"
    by (simp add: relatedLinksSection_def)
  then show ?thesis unfolding js_includes_iff by blast
qed

lemma addLinksLoop_step:
  obtains (written) content where
      "path (sourceFile r) \<notin> P"
      "contents v (path (sourceFile r)) = Some content"
      "relatedFilesOf st relations r \<noteq> []"
      "\<not> js_includes content related_marker"
      "canModify v (path (sourceFile r))"
      "addLinksLoop st relations (r # rest) v P
         = addLinksLoop st relations rest
             (v\<lparr>contents := (contents v)(path (sourceFile r) \<mapsto>
                  content @ relatedLinksSection (relatedFilesOf st relations r))\<rparr>)
             (insert (path (sourceFile r)) P)"
  | (skipped)
      "addLinksLoop st relations (r # rest) v P = addLinksLoop st relations rest v P"
      "path (sourceFile r) \<in> P \<or> blocked st relations v r"
proof (cases "path (sourceFile r) \<in> P")
  case True
  then show ?thesis by (intro skipped) simp_all
next
  case notin: False
  show ?thesis
  proof (cases "contents v (path (sourceFile r))")
    case None
    with notin show ?thesis by (intro skipped) (simp_all add: blocked_def)
  next
    case (Some content)
    show ?thesis
    proof (cases "relatedFilesOf st relations r = [] \<or> js_includes content related_marker
                    \<or> \<not> canModify v (path (sourceFile r))")
      case True
      with notin Some show ?thesis
        by (intro skipped) (auto simp: blocked_def Let_def vault_modify_def)
    next
      case False
      with notin Some show ?thesis
        by (intro written [of content]) (auto simp: Let_def vault_modify_def)
    qed
  qed
qed

lemma addLinksLoop_keeps_marked:
  "contents v q = Some c \<Longrightarrow> js_includes c related_marker \<Longrightarrow>
   contents (fst (addLinksLoop st relations rels v P)) q = Some c"
proof (induction rels arbitrary: v P)
  case Nil
  then show ?case by simp
next
  case (Cons r rest)
  show ?case
  proof (cases rule: addLinksLoop_step [of r P v st relations rest])
    case (written content)
    then have "path (sourceFile r) \<noteq> q" using Cons.prems by auto
    then have "contents (v\<lparr>contents := (contents v)(path (sourceFile r) \<mapsto>
                  content @ relatedLinksSection (relatedFilesOf st relations r))\<rparr>) q = Some c"
      using Cons.prems(1) by simp
    from Cons.IH [OF this Cons.prems(2)] written(6) show ?thesis by simp
  next
    case skipped
    with Cons.IH [OF Cons.prems] show ?thesis by simp
  qed
qed

lemma blocked_after_write:
  assumes "blocked st relations v r0"
  shows "blocked st relations
           (v\<lparr>contents := (contents v)(p \<mapsto> content @ relatedLinksSection rf)\<rparr>) r0"
  using assms by (auto simp: blocked_def section_has_marker split: option.splits)

lemma addLinksLoop_keeps_blocked:
  "blocked st relations v r0 \<Longrightarrow>
   blocked st relations (fst (addLinksLoop st relations rels v P)) r0"
proof (induction rels arbitrary: v P)
  case Nil
  then show ?case by simp
next
  case (Cons r rest)
  show ?case
  proof (cases rule: addLinksLoop_step [of r P v st relations rest])
    case (written content)
    from Cons.IH [OF blocked_after_write [OF Cons.prems]] written(6) show ?thesis by simp
  next
    case skipped
    with Cons.IH [OF Cons.prems] show ?thesis by simp
  qed
qed

lemma marked_blocked: "marked v (path (sourceFile r)) \<Longrightarrow> blocked st relations v r"
  by (auto simp: marked_def blocked_def split: option.splits)

lemma addLinksLoop_blocks:
  "(\<forall>q \<in> P. marked v q) \<Longrightarrow>
   (\<forall>r \<in> set rels. blocked st relations (fst (addLinksLoop st relations rels v P)) r)"
proof (induction rels arbitrary: v P)
  case Nil
  then show ?case by simp
next
  case (Cons r rest)
  let ?p = "path (sourceFile r)"
  show ?case
  proof (cases rule: addLinksLoop_step [of r P v st relations rest])
    case (written content)
    let ?v = "v\<lparr>contents := (contents v)(?p \<mapsto>
                  content @ relatedLinksSection (relatedFilesOf st relations r))\<rparr>"
    have eq: "addLinksLoop st relations (r # rest) v P
                = addLinksLoop st relations rest ?v (insert ?p P)"
      by (rule written(6))
    have mp: "marked ?v ?p" by (simp add: marked_def section_has_marker)
    have "\<forall>q \<in> insert ?p P. marked ?v q"
    proof
      fix q assume q: "q \<in> insert ?p P"
      show "marked ?v q"
      proof (cases "q = ?p")
        case True
        with mp show ?thesis by simp
      next
        case False
        with q Cons.prems have "marked v q" by simp
        with False show ?thesis by (simp add: marked_def)
      qed
    qed
    from Cons.IH [OF this]
    have rest: "\<forall>r' \<in> set rest. blocked st relations
                  (fst (addLinksLoop st relations rest ?v (insert ?p P))) r'" .
    have "blocked st relations ?v r" using mp by (rule marked_blocked)
    then have "blocked st relations (fst (addLinksLoop st relations rest ?v (insert ?p P))) r"
      by (rule addLinksLoop_keeps_blocked)
    with rest eq show ?thesis by simp
  next
    case skipped
    have "blocked st relations v r"
      using skipped(2) Cons.prems by (auto intro: marked_blocked)
    then have "blocked st relations (fst (addLinksLoop st relations rest v P)) r"
      by (rule addLinksLoop_keeps_blocked)
    with Cons.IH [OF Cons.prems] skipped(1) show ?thesis by simp
  qed
qed

lemma addLinksLoop_all_blocked:
  "(\<forall>r \<in> set rels. blocked st relations v r) \<Longrightarrow>
   addLinksLoop st relations rels v P = (v, P)"
proof (induction rels arbitrary: P)
  case Nil
  then show ?case by simp
next
  case (Cons r rest)
  show ?case
  proof (cases rule: addLinksLoop_step [of r P v st relations rest])
    case (written content)
    moreover have "blocked st relations v r" using Cons.prems by simp
    ultimately show ?thesis by (auto simp: blocked_def)
  next
    case skipped
    then show ?thesis using Cons.IH Cons.prems by simp
  qed
qed






lemma demo_addLinks:
  "contents (fst (addWikiLinksToDocuments demo_plugin demo_vault
                    [relAB (Fin 0.6), relAC (Fin 0.9)])) (ascii ''A.md'')
     = Some (ascii ''alpha'' @ [0x0A, 0x0A] @ related_marker @ [0x0A]
             @ linkText (relAC (Fin 0.9)) @ linkText (relAB (Fin 0.6)))"
  by (simp add: addWikiLinksToDocuments_def demo_vault_def relatedFilesOf_def demo_kgs
        relAB_def relAC_def docA_def docB_def docC_def js_sort_def byScoreDesc_def js_slice0_def
        js_includes_def related_marker_def relatedLinksSection_def vault_modify_def
        linkText_def ascii_def Let_def)




text \<open>
  C6. The batch link append is idempotent: a second run with the same relations on the
  vault that the first run left changes nothing; and a body that holds the heading is
  never changed.
\<close>

theorem addWikiLinksToDocuments_idempotent:
  "fst (addWikiLinksToDocuments st (fst (addWikiLinksToDocuments st v relations)) relations)
     = fst (addWikiLinksToDocuments st v relations)
   \<and> (\<forall>q body. contents v q = Some body \<longrightarrow> js_includes body related_marker \<longrightarrow>
         contents (fst (addWikiLinksToDocuments st v relations)) q = Some body)"
proof
  let ?v1 = "fst (addWikiLinksToDocuments st v relations)"
  have "\<forall>r \<in> set relations. blocked st relations ?v1 r"
    unfolding addWikiLinksToDocuments_def by (rule addLinksLoop_blocks) simp
  then have "addLinksLoop st relations relations ?v1 {} = (?v1, {})"
    by (rule addLinksLoop_all_blocked)
  then show "fst (addWikiLinksToDocuments st ?v1 relations) = ?v1"
    by (simp add: addWikiLinksToDocuments_def)
next
  show "\<forall>q body. contents v q = Some body \<longrightarrow> js_includes body related_marker \<longrightarrow>
         contents (fst (addWikiLinksToDocuments st v relations)) q = Some body"
    by (simp add: addWikiLinksToDocuments_def addLinksLoop_keeps_marked)
qed

theorem addWikiLinksToDocuments_idempotent_witness:
  "contents (fst (addWikiLinksToDocuments demo_plugin demo_vault
                    [relAB (Fin 0.6), relAC (Fin 0.9)])) (ascii ''A.md'')
     = Some (ascii ''alpha'' @ [0x0A, 0x0A] @ related_marker @ [0x0A]
             @ linkText (relAC (Fin 0.9)) @ linkText (relAB (Fin 0.6)))
   \<and> js_includes (ascii ''alpha'' @ [0x0A, 0x0A] @ related_marker @ [0x0A]
             @ linkText (relAC (Fin 0.9)) @ linkText (relAB (Fin 0.6))) related_marker
   \<and> contents (fst (addWikiLinksToDocuments demo_plugin
                       (fst (addWikiLinksToDocuments demo_plugin demo_vault
                               [relAB (Fin 0.6), relAC (Fin 0.9)]))
                       [relAB (Fin 0.6), relAC (Fin 0.9)])) (ascii ''A.md'')
     = Some (ascii ''alpha'' @ [0x0A, 0x0A] @ related_marker @ [0x0A]
             @ linkText (relAC (Fin 0.9)) @ linkText (relAB (Fin 0.6)))
   \<and> fst (addWikiLinksToDocuments demo_plugin
            (fst (addWikiLinksToDocuments demo_plugin demo_vault
                    [relAB (Fin 0.6), relAC (Fin 0.9)]))
            [relAB (Fin 0.6), relAC (Fin 0.9)])
     = fst (addWikiLinksToDocuments demo_plugin demo_vault [relAB (Fin 0.6), relAC (Fin 0.9)])"
proof -
  let ?rels = "[relAB (Fin 0.6), relAC (Fin 0.9)]"
  let ?v1 = "fst (addWikiLinksToDocuments demo_plugin demo_vault ?rels)"
  let ?body = "ascii ''alpha'' @ [0x0A, 0x0A] @ related_marker @ [0x0A]
             @ linkText (relAC (Fin 0.9)) @ linkText (relAB (Fin 0.6))"
  have inc: "js_includes ?body related_marker"
    unfolding js_includes_iff by (metis append.assoc)
  note t = addWikiLinksToDocuments_idempotent [of demo_plugin ?v1 ?rels]
  note keep = t [THEN conjunct2, rule_format, OF demo_addLinks inc]
  note idem = addWikiLinksToDocuments_idempotent [of demo_plugin demo_vault ?rels,
                THEN conjunct1]
  from demo_addLinks inc keep idem show ?thesis by blast
qed

section \<open>Prompt templates\<close>

text \<open>
  C7. The claim: every occurrence of a bound placeholder is replaced by its value,
  inserted verbatim. The prompt builders call \<open>prompt.replace('{{name}}', value)\<close> with a
  string pattern, which replaces the first occurrence only and reads the value as a
  replacement template. Evaluated here, on the prompts as logged: the text \<open>$$x$$\<close>
  reaches the service as \<open>$x$\<close> (\<open>summarizeText\<close>), \<open>pay $$5\<close> as \<open>pay $5\<close>
  (\<open>generateNoteTitle\<close>), concepts \<open>$&\<close> as the placeholder itself
  (\<open>analyzeDocumentRelation\<close>); and of two occurrences of \<open>{{content}}\<close> the second
  stays.
\<close>

theorem replace_is_not_verbatim:
  "map inputPrompt (logHistory (settings (snd
       (summarizeText (answering (ascii ''ok'')) demo_plugin (ascii ''$$x$$'')))))
     = [ascii ''Please summarize the following text concisely:'' @ [0x0A, 0x0A]
          @ ascii ''$x$'' @ [0x0A, 0x0A] @ ascii ''Summary:'']
   \<and> map inputPrompt (logHistory (settings (snd
       (generateNoteTitle (answering (ascii ''ok'')) demo_plugin (ascii ''pay $$5'') None))))
     = [ascii ''Title: pay $5'']
   \<and> map inputPrompt (logHistory (settings (snd
       (analyzeDocumentRelation (answering (ascii ''ok'')) demo_plugin
          (ascii ''A'') (ascii ''$&'') (ascii ''B'') (ascii ''b'')))))
     = [ascii ''A: {{sourceConcepts}}; B: b'']
   \<and> js_replace (ascii ''{{content}} and {{content}}'') (placeholder ''content'') (ascii ''x'')
       = ascii ''x and {{content}}''"
  by (simp add: summarizeText_def generateNoteTitle_def analyzeDocumentRelation_def
        generateContent_def logGeminiInteraction_def answering_def
        demo_env_def demo_plugin_def demo_settings_def js_replace_def placeholder_def ascii_def
        Let_def jsonMatch_def)

section \<open>The single link of the modal\<close>

text \<open>A run as intended: the new line is put at the end of the section, before the next heading.\<close>

lemma addWikiLink_appends_in_section:
  "contents (addWikiLink (vault_with (ascii ''x'' @ [0x0A] @ related_marker @ [0x0A] @ ascii ''- [[C]] - c'' @ [0x0A] @ ascii ''## Next''))
                   (Some docA) (relAB (Fin 0.8))) (ascii ''A.md'')
       = Some (ascii ''x'' @ [0x0A] @ related_marker @ [0x0A] @ ascii ''- [[C]] - c'' @ [0x0A]
               @ ascii ''- [[B]] - same topic'' @ [0x0A] @ ascii ''## Next'')"
  by (simp add: addWikiLink_def vault_with_def sectionMatch_def js_includes_def
        related_marker_def relAB_def docA_def docB_def vault_modify_def ascii_def Let_def
        is_digit_def digit_val_def)

text \<open>
  C9. The claim: when the body holds the heading, either the link is already in the
  section and the body stays, or one new line is appended inside the section. Evaluated
  here: a body that ends with the heading, and a body whose heading is followed by
  \<open>\r\n\<close>, hold the heading but do not match the pattern (which asks for \<open>\n\<close> right
  after the heading); the body stays as it is although no link to the target is there.
  And where the pattern matches, the old section is written back through a replacement
  template, so that \<open>$$\<close> in an existing line becomes \<open>$\<close>.
\<close>

theorem addWikiLink_misses_section:
  "js_includes related_marker related_marker
   \<and> \<not> js_includes related_marker (ascii ''[[B]]'')
   \<and> contents (addWikiLink (vault_with related_marker) (Some docA) (relAB (Fin 0.8)))
         (ascii ''A.md'') = Some related_marker
   \<and> contents (addWikiLink (vault_with (related_marker @ [0x0D, 0x0A] @ ascii ''- [[C]] - c''))
                   (Some docA) (relAB (Fin 0.8))) (ascii ''A.md'')
       = Some (related_marker @ [0x0D, 0x0A] @ ascii ''- [[C]] - c'')
   \<and> contents (addWikiLink (vault_with (related_marker @ [0x0A] @ ascii ''- [[C]] - costs $$5''))
                   (Some docA) (relAB (Fin 0.8))) (ascii ''A.md'')
       = Some (related_marker @ [0x0A] @ ascii ''- [[C]] - costs $5'' @ [0x0A]
               @ ascii ''- [[B]] - same topic'')"
  by (simp add: addWikiLink_def vault_with_def sectionMatch_def js_includes_def
        related_marker_def relAB_def docA_def docB_def vault_modify_def ascii_def Let_def
        is_digit_def digit_val_def)

end
